theory Spec2Isabelle
  imports Main "HOL-Library.Sublist"
begin

section \<open>Strings as the program has them\<close>

text \<open>
  A Go string is a sequence of bytes; it is modelled as a \<^typ>\<open>string\<close>, one
  \<^typ>\<open>char\<close> per byte.  The lexer reads single bytes and classifies each one with
  \<^verbatim>\<open>unicode.IsSpace(rune(ch))\<close>, \<^verbatim>\<open>unicode.IsDigit(rune(ch))\<close> and
  \<^verbatim>\<open>unicode.IsLetter(rune(ch))\<close>, so only the Latin-1 range of these predicates
  is ever consulted.
\<close>

definition byte_of :: "char \<Rightarrow> nat" where
  "byte_of c = of_char c"

definition isSpace :: "char \<Rightarrow> bool" where
  "isSpace c = (byte_of c \<in> {0x09, 0x0A, 0x0B, 0x0C, 0x0D, 0x20, 0x85, 0xA0})"

definition isDigit :: "char \<Rightarrow> bool" where
  "isDigit c = (0x30 \<le> byte_of c \<and> byte_of c \<le> 0x39)"

definition isLetter :: "char \<Rightarrow> bool" where
  "isLetter c = (let n = byte_of c in
     (0x41 \<le> n \<and> n \<le> 0x5A) \<or> (0x61 \<le> n \<and> n \<le> 0x7A) \<or>
     n = 0xAA \<or> n = 0xB5 \<or> n = 0xBA \<or>
     (0xC0 \<le> n \<and> n \<le> 0xD6) \<or> (0xD8 \<le> n \<and> n \<le> 0xF6) \<or> (0xF8 \<le> n \<and> n \<le> 0xFF))"

text \<open>
  \<^verbatim>\<open>string(ch)\<close> for a byte \<open>ch\<close> is Go's integer-to-string conversion: the
  UTF-8 encoding of the code point whose number is the byte's value.  Bytes below
  \<open>0x80\<close> give the one-byte string, the others a two-byte string.
\<close>

definition string_of_byte :: "char \<Rightarrow> string" where
  "string_of_byte c = (let n = byte_of c in
     if n < 0x80 then [c]
     else [char_of (0xC0 + n div 64), char_of (0x80 + n mod 64)])"

text \<open>
  \<^verbatim>\<open>strings.ToLower\<close>, on the ASCII letters.  The lexer only compares the result with
  the word \<open>number\<close>, and no character outside ASCII has one of the letters of that word
  as its lower case, so bytes outside \<open>A\<close>..\<open>Z\<close> are left as they are.
\<close>

definition toLower_char :: "char \<Rightarrow> char" where
  "toLower_char c = (if 0x41 \<le> byte_of c \<and> byte_of c \<le> 0x5A then char_of (byte_of c + 32) else c)"

definition toLower :: "string \<Rightarrow> string" where
  "toLower s = map toLower_char s"

text \<open>The slice expression \<^verbatim>\<open>s[i:j]\<close>.\<close>

definition slice :: "'a list \<Rightarrow> nat \<Rightarrow> nat \<Rightarrow> 'a list" where
  "slice s i j = take (j - i) (drop i s)"

text \<open>\<^verbatim>\<open>%d\<close> of a non-negative integer.\<close>

definition digit_char :: "nat \<Rightarrow> char" where
  "digit_char d = char_of (0x30 + d)"

fun show_nat :: "nat \<Rightarrow> string" where
  "show_nat n = (if n < 10 then [digit_char n] else show_nat (n div 10) @ [digit_char (n mod 10)])"

declare show_nat.simps [simp del]

definition show_int :: "int \<Rightarrow> string" where
  "show_int i = (if i < 0 then CHR ''-'' # show_nat (nat (- i)) else show_nat (nat i))"

section \<open>Data model (types.go)\<close>

datatype TokenType =
    TOKEN_NUMBER | TOKEN_PLUS | TOKEN_MINUS | TOKEN_MULT | TOKEN_DIV
  | TOKEN_LPAREN | TOKEN_RPAREN | TOKEN_EOF | TOKEN_EPSILON | TOKEN_IDENT | TOKEN_UNKNOWN

record Token =
  Type :: TokenType
  Value :: string
  Position :: nat

section \<open>Lexer (lexer.go)\<close>

record Lexer =
  input :: string
  lpos :: nat
  ltokens :: "Token list"

definition NewLexer :: "string \<Rightarrow> Lexer" where
  "NewLexer s = \<lparr>input = s, lpos = 0, ltokens = []\<rparr>"

text \<open>The scanning loop of \<^verbatim>\<open>readNumber\<close>: the position where the number ends.\<close>

function readNumber_loop :: "string \<Rightarrow> nat \<Rightarrow> bool \<Rightarrow> nat" where
  "readNumber_loop s p hasDecimal =
     (if p < length s then
        (let ch = s ! p in
         if isDigit ch then readNumber_loop s (p + 1) hasDecimal
         else if ch = CHR ''.'' \<and> \<not> hasDecimal then readNumber_loop s (p + 1) True
         else p)
      else p)"
  by pat_completeness auto
termination
  by (relation "measure (\<lambda>(s, p, h). length s - p)") auto

declare readNumber_loop.simps [simp del]

definition readNumber :: "Lexer \<Rightarrow> Token \<times> Lexer" where
  "readNumber l =
     (let start = lpos l;
          e = readNumber_loop (input l) start False
      in (\<lparr>Type = TOKEN_NUMBER, Value = slice (input l) start e, Position = start\<rparr>,
          l\<lparr>lpos := e\<rparr>))"

function readIdentifier_loop :: "string \<Rightarrow> nat \<Rightarrow> nat" where
  "readIdentifier_loop s p =
     (if p < length s then
        (let ch = s ! p in
         if isLetter ch \<or> isDigit ch \<or> ch = CHR ''_'' \<or> ch = CHR 0x27
         then readIdentifier_loop s (p + 1)
         else p)
      else p)"
  by pat_completeness auto
termination
  by (relation "measure (\<lambda>(s, p). length s - p)") auto

declare readIdentifier_loop.simps [simp del]

definition readIdentifier :: "Lexer \<Rightarrow> Token \<times> Lexer" where
  "readIdentifier l =
     (let start = lpos l;
          e = readIdentifier_loop (input l) start;
          v = slice (input l) start e;
          tokenType = (if toLower v = ''number'' then TOKEN_NUMBER else TOKEN_IDENT)
      in (\<lparr>Type = tokenType, Value = v, Position = start\<rparr>, l\<lparr>lpos := e\<rparr>))"

text \<open>The \<^verbatim>\<open>switch ch\<close> of \<^verbatim>\<open>Tokenize\<close> for a single character.\<close>

definition single_char_token :: "char \<Rightarrow> nat \<Rightarrow> Token" where
  "single_char_token ch p =
     (if ch = CHR ''+'' then \<lparr>Type = TOKEN_PLUS, Value = ''+'', Position = p\<rparr>
      else if ch = CHR ''-'' then \<lparr>Type = TOKEN_MINUS, Value = ''-'', Position = p\<rparr>
      else if ch = CHR ''*'' then \<lparr>Type = TOKEN_MULT, Value = ''*'', Position = p\<rparr>
      else if ch = CHR ''/'' then \<lparr>Type = TOKEN_DIV, Value = ''/'', Position = p\<rparr>
      else if ch = CHR ''('' then \<lparr>Type = TOKEN_LPAREN, Value = ''('', Position = p\<rparr>
      else if ch = CHR '')'' then \<lparr>Type = TOKEN_RPAREN, Value = '')'', Position = p\<rparr>
      else \<lparr>Type = TOKEN_UNKNOWN, Value = string_of_byte ch, Position = p\<rparr>)"

lemma readNumber_loop_ge: "p \<le> readNumber_loop s p h"
proof (induction s p h rule: readNumber_loop.induct)
  case (1 s p h)
  show ?case
    using "1.IH" by (subst readNumber_loop.simps) (auto simp: Let_def dest: Suc_leD)
qed

lemma readNumber_loop_le: "p \<le> length s \<Longrightarrow> readNumber_loop s p h \<le> length s"
proof (induction s p h rule: readNumber_loop.induct)
  case (1 s p h)
  show ?case
    using "1.IH" "1.prems" by (subst readNumber_loop.simps) (auto simp: Let_def)
qed

lemma readNumber_loop_advances:
  "p < length s \<Longrightarrow> isDigit (s ! p) \<Longrightarrow> p < readNumber_loop s p h"
  using readNumber_loop_ge [of "p + 1" s h]
  by (subst readNumber_loop.simps) (simp add: Let_def)

lemma readIdentifier_loop_ge: "p \<le> readIdentifier_loop s p"
proof (induction s p rule: readIdentifier_loop.induct)
  case (1 s p)
  show ?case
    using "1.IH" by (subst readIdentifier_loop.simps) (auto simp: Let_def dest: Suc_leD)
qed

lemma readIdentifier_loop_le: "p \<le> length s \<Longrightarrow> readIdentifier_loop s p \<le> length s"
proof (induction s p rule: readIdentifier_loop.induct)
  case (1 s p)
  show ?case
    using "1.IH" "1.prems" by (subst readIdentifier_loop.simps) (auto simp: Let_def)
qed

lemma readIdentifier_loop_advances:
  "p < length s \<Longrightarrow> isLetter (s ! p) \<Longrightarrow> p < readIdentifier_loop s p"
  using readIdentifier_loop_ge [of "p + 1" s]
  by (subst readIdentifier_loop.simps) (simp add: Let_def)

text \<open>The main loop of \<^verbatim>\<open>Tokenize\<close>, on the lexer's state.\<close>

function Tokenize_loop :: "Lexer \<Rightarrow> Lexer" where
  "Tokenize_loop l =
     (if lpos l < length (input l) then
        (let ch = input l ! lpos l in
         if isSpace ch then Tokenize_loop (l\<lparr>lpos := lpos l + 1\<rparr>)
         else if isDigit ch then
           (let (t, l') = readNumber l in Tokenize_loop (l'\<lparr>ltokens := ltokens l' @ [t]\<rparr>))
         else if isLetter ch then
           (let (t, l') = readIdentifier l in Tokenize_loop (l'\<lparr>ltokens := ltokens l' @ [t]\<rparr>))
         else Tokenize_loop (l\<lparr>ltokens := ltokens l @ [single_char_token ch (lpos l)],
                                lpos := lpos l + 1\<rparr>))
      else l)"
  by pat_completeness auto
termination
proof (relation "measure (\<lambda>l. length (input l) - lpos l)")
  show "wf (measure (\<lambda>l. length (input l) - lpos l))" by simp
next
  fix l :: Lexer and ch
  assume "lpos l < length (input l)"
  then show "(l\<lparr>lpos := lpos l + 1\<rparr>, l) \<in> measure (\<lambda>l. length (input l) - lpos l)"
    by simp
next
  fix l :: Lexer and ch x t l'
  assume a: "lpos l < length (input l)" "ch = input l ! lpos l" "isDigit ch"
    and x: "x = readNumber l" "(t, l') = x"
  from x have l': "l' = l\<lparr>lpos := readNumber_loop (input l) (lpos l) False\<rparr>"
    by (simp add: readNumber_def Let_def)
  have "lpos l < readNumber_loop (input l) (lpos l) False"
    using a readNumber_loop_advances by simp
  then show "(l'\<lparr>ltokens := ltokens l' @ [t]\<rparr>, l) \<in> measure (\<lambda>l. length (input l) - lpos l)"
    using a l' by simp
next
  fix l :: Lexer and ch x t l'
  assume a: "lpos l < length (input l)" "ch = input l ! lpos l" "isLetter ch"
    and x: "x = readIdentifier l" "(t, l') = x"
  from x have l': "l' = l\<lparr>lpos := readIdentifier_loop (input l) (lpos l)\<rparr>"
    by (simp add: readIdentifier_def Let_def)
  have "lpos l < readIdentifier_loop (input l) (lpos l)"
    using a readIdentifier_loop_advances by simp
  then show "(l'\<lparr>ltokens := ltokens l' @ [t]\<rparr>, l) \<in> measure (\<lambda>l. length (input l) - lpos l)"
    using a l' by simp
next
  fix l :: Lexer and ch
  assume "lpos l < length (input l)"
  then show "(l\<lparr>ltokens := ltokens l @ [single_char_token ch (lpos l)], lpos := lpos l + 1\<rparr>, l)
      \<in> measure (\<lambda>l. length (input l) - lpos l)"
    by simp
qed

declare Tokenize_loop.simps [simp del]

definition Tokenize :: "Lexer \<Rightarrow> Token list" where
  "Tokenize l0 =
     (let l = Tokenize_loop (l0\<lparr>ltokens := [], lpos := 0\<rparr>)
      in ltokens l @ [\<lparr>Type = TOKEN_EOF, Value = [], Position = lpos l\<rparr>])"

section \<open>Library functions used by the grammar compiler\<close>

text \<open>
  \<^verbatim>\<open>strings.TrimSpace\<close> and \<^verbatim>\<open>strings.Fields\<close> decode UTF-8 and test each
  code point with \<^verbatim>\<open>unicode.IsSpace\<close>.  \<open>space_prefix_len s\<close> is the number of bytes
  of the white-space code point \<open>s\<close> starts with, \<open>0\<close> when it starts with none.
\<close>

definition space_seqs :: "string list" where
  "space_seqs =
     [[CHR 0x09], [CHR 0x0A], [CHR 0x0B], [CHR 0x0C], [CHR 0x0D], [CHR 0x20],
      [CHR 0xC2, CHR 0x85], [CHR 0xC2, CHR 0xA0], [CHR 0xE1, CHR 0x9A, CHR 0x80],
      [CHR 0xE2, CHR 0x80, CHR 0x80], [CHR 0xE2, CHR 0x80, CHR 0x81],
      [CHR 0xE2, CHR 0x80, CHR 0x82], [CHR 0xE2, CHR 0x80, CHR 0x83],
      [CHR 0xE2, CHR 0x80, CHR 0x84], [CHR 0xE2, CHR 0x80, CHR 0x85],
      [CHR 0xE2, CHR 0x80, CHR 0x86], [CHR 0xE2, CHR 0x80, CHR 0x87],
      [CHR 0xE2, CHR 0x80, CHR 0x88], [CHR 0xE2, CHR 0x80, CHR 0x89],
      [CHR 0xE2, CHR 0x80, CHR 0x8A], [CHR 0xE2, CHR 0x80, CHR 0xA8],
      [CHR 0xE2, CHR 0x80, CHR 0xA9], [CHR 0xE2, CHR 0x80, CHR 0xAF],
      [CHR 0xE2, CHR 0x81, CHR 0x9F], [CHR 0xE3, CHR 0x80, CHR 0x80]]"

definition HasPrefix :: "string \<Rightarrow> string \<Rightarrow> bool" where
  "HasPrefix s p = (take (length p) s = p)"

definition space_prefix_len :: "string \<Rightarrow> nat" where
  "space_prefix_len s =
     (case filter (HasPrefix s) space_seqs of [] \<Rightarrow> 0 | q # _ \<Rightarrow> length q)"

definition space_suffix_len :: "string \<Rightarrow> nat" where
  "space_suffix_len s =
     (case filter (\<lambda>q. HasPrefix (rev s) (rev q)) space_seqs of [] \<Rightarrow> 0 | q # _ \<Rightarrow> length q)"

lemma space_prefix_len_le: "space_prefix_len s \<le> length s"
proof (cases "filter (HasPrefix s) space_seqs")
  case Nil
  then show ?thesis by (simp add: space_prefix_len_def)
next
  case (Cons q qs)
  then have "q \<in> set (filter (HasPrefix s) space_seqs)" by simp
  then have "HasPrefix s q" by simp
  then have "length q \<le> length s"
    by (metis HasPrefix_def length_take min.cobounded1)
  with Cons show ?thesis by (simp add: space_prefix_len_def)
qed

lemma space_suffix_len_le: "space_suffix_len s \<le> length s"
proof (cases "filter (\<lambda>q. HasPrefix (rev s) (rev q)) space_seqs")
  case Nil
  then show ?thesis by (simp add: space_suffix_len_def)
next
  case (Cons q qs)
  then have "q \<in> set (filter (\<lambda>q. HasPrefix (rev s) (rev q)) space_seqs)" by simp
  then have "HasPrefix (rev s) (rev q)" by simp
  then have "length q \<le> length s"
    by (metis HasPrefix_def length_rev length_take min.cobounded1)
  with Cons show ?thesis by (simp add: space_suffix_len_def)
qed

function TrimLeft :: "string \<Rightarrow> string" where
  "TrimLeft s = (if 0 < space_prefix_len s then TrimLeft (drop (space_prefix_len s) s) else s)"
  by pat_completeness auto
termination
proof (relation "measure length")
  show "wf (measure length)" by simp
next
  fix s :: string
  assume "0 < space_prefix_len s"
  then show "(drop (space_prefix_len s) s, s) \<in> measure length"
    using space_prefix_len_le [of s] by simp
qed

declare TrimLeft.simps [simp del]

function TrimRight :: "string \<Rightarrow> string" where
  "TrimRight s =
     (if 0 < space_suffix_len s then TrimRight (take (length s - space_suffix_len s) s) else s)"
  by pat_completeness auto
termination
proof (relation "measure length")
  show "wf (measure length)" by simp
next
  fix s :: string
  assume "0 < space_suffix_len s"
  then show "(take (length s - space_suffix_len s) s, s) \<in> measure length"
    using space_suffix_len_le [of s] by simp
qed

declare TrimRight.simps [simp del]

definition TrimSpace :: "string \<Rightarrow> string" where
  "TrimSpace s = TrimRight (TrimLeft s)"

text \<open>
  \<^verbatim>\<open>strings.Fields\<close>: the maximal runs of bytes between white space.  \<open>cur\<close> is the
  field being read, in reverse.
\<close>

function Fields_loop :: "string \<Rightarrow> string \<Rightarrow> string list" where
  "Fields_loop cur s =
     (if s = [] then (if cur = [] then [] else [rev cur])
      else if 0 < space_prefix_len s then
        (if cur = [] then Fields_loop [] (drop (space_prefix_len s) s)
         else rev cur # Fields_loop [] (drop (space_prefix_len s) s))
      else Fields_loop (hd s # cur) (tl s))"
  by pat_completeness auto
termination
proof (relation "measure (\<lambda>(cur, s). length s)")
  show "wf (measure (\<lambda>(cur, s). length s))" by simp
next
  fix cur s :: string
  assume "s \<noteq> []" "0 < space_prefix_len s"
  then show "(([], drop (space_prefix_len s) s), cur, s) \<in> measure (\<lambda>(cur, s). length s)"
    by simp
next
  fix cur s :: string
  assume "s \<noteq> []" "0 < space_prefix_len s"
  then show "(([], drop (space_prefix_len s) s), cur, s) \<in> measure (\<lambda>(cur, s). length s)"
    by simp
next
  fix cur s :: string
  assume "s \<noteq> []"
  then show "((hd s # cur, tl s), cur, s) \<in> measure (\<lambda>(cur, s). length s)"
    by (cases s) simp_all
qed

declare Fields_loop.simps [simp del]

definition Fields :: "string \<Rightarrow> string list" where
  "Fields s = Fields_loop [] s"

text \<open>\<^verbatim>\<open>strings.Split\<close> with a separator of one byte: always at least one piece.\<close>

fun Split_loop :: "char \<Rightarrow> string \<Rightarrow> string \<Rightarrow> string list" where
  "Split_loop sep cur [] = [rev cur]"
| "Split_loop sep cur (c # cs) =
     (if c = sep then rev cur # Split_loop sep [] cs else Split_loop sep (c # cur) cs)"

definition Split :: "string \<Rightarrow> char \<Rightarrow> string list" where
  "Split s sep = Split_loop sep [] s"

text \<open>
  \<^verbatim>\<open>strings.ReplaceAll\<close> for a non-empty \<open>old\<close> (the only way the source calls it):
  the occurrences are replaced from left to right, without overlap.
\<close>

function ReplaceAll :: "string \<Rightarrow> string \<Rightarrow> string \<Rightarrow> string" where
  "ReplaceAll s old new =
     (if s = [] \<or> old = [] then s
      else if HasPrefix s old then new @ ReplaceAll (drop (length old) s) old new
      else hd s # ReplaceAll (tl s) old new)"
  by pat_completeness auto
termination
proof (relation "measure (\<lambda>(s, old, new). length s)")
  show "wf (measure (\<lambda>(s, old, new). length s))" by simp
next
  fix s old new :: string
  assume "\<not> (s = [] \<or> old = [])"
  then show "((drop (length old) s, old, new), s, old, new) \<in> measure (\<lambda>(s, old, new). length s)"
    by simp
next
  fix s old new :: string
  assume "\<not> (s = [] \<or> old = [])"
  then show "((tl s, old, new), s, old, new) \<in> measure (\<lambda>(s, old, new). length s)"
    by (cases s) simp_all
qed

declare ReplaceAll.simps [simp del]

text \<open>\<^verbatim>\<open>strings.Join\<close>.\<close>

fun Join :: "string list \<Rightarrow> string \<Rightarrow> string" where
  "Join [] sep = []"
| "Join [x] sep = x"
| "Join (x # y # xs) sep = x @ sep @ Join (y # xs) sep"

text \<open>
  \<^verbatim>\<open>regexp.MustCompile(`\s*->|\<rightarrow>\s*`).Split(line, 2)\<close>.  The expression has two
  alternatives: white space followed by \<open>->\<close>, or the arrow character (the bytes
  \<open>E2 86 92\<close>) followed by white space, where \<open>\s\<close> is one of tab, newline, form feed,
  carriage return and blank.  The match is the leftmost one, the first alternative
  winning at a position, and the starred part is greedy.  With the limit 2 the result is
  the text before the first match and the text after it, or the line alone when nothing
  matches.
\<close>

definition re_space :: "char \<Rightarrow> bool" where
  "re_space c = (byte_of c \<in> {0x09, 0x0A, 0x0C, 0x0D, 0x20})"

definition arrow :: string where
  "arrow = [CHR 0xE2, CHR 0x86, CHR 0x92]"

fun find_separator :: "string \<Rightarrow> string \<Rightarrow> (string \<times> string) option" where
  "find_separator pre [] = None"
| "find_separator pre (c # cs) =
     (if HasPrefix (dropWhile re_space (c # cs)) ''->''
      then Some (rev pre, drop 2 (dropWhile re_space (c # cs)))
      else if HasPrefix (c # cs) arrow
      then Some (rev pre, dropWhile re_space (drop 3 (c # cs)))
      else find_separator (c # pre) cs)"

definition regexp_Split2 :: "string \<Rightarrow> string list" where
  "regexp_Split2 line =
     (case find_separator [] line of None \<Rightarrow> [line] | Some (a, b) \<Rightarrow> [a, b])"

section \<open>Grammar compiler (grammar.go)\<close>

record Production =
  Head :: string
  Body :: "string list list"

text \<open>
  The three maps of a grammar.  \<^verbatim>\<open>Terminals\<close> and \<^verbatim>\<open>NonTerminals\<close> only ever
  store \<^verbatim>\<open>true\<close>, so each is the set of its keys.  \<^verbatim>\<open>Productions\<close> is iterated by
  the source, in the unspecified order of a Go map; here it is an association list with
  one entry per head, iterated in the order in which the heads were first stored.
\<close>

record Grammar =
  Productions :: "(string \<times> Production) list"
  StartSymbol :: string
  Terminals :: "string set"
  NonTerminals :: "string set"

definition eps :: string where
  "eps = [CHR 0xCE, CHR 0xB5]"

definition parseSymbols :: "string \<Rightarrow> string list" where
  "parseSymbols body =
     (let body1 = ReplaceAll body eps ('' '' @ eps @ '' '');
          body2 = ReplaceAll body1 ''epsilon'' ('' '' @ eps @ '' '');
          parts = Fields body2
      in filter (\<lambda>part. part \<noteq> []) (map TrimSpace parts))"

text \<open>The inner loop of \<^verbatim>\<open>ParseGrammar\<close> over the alternatives of one line.\<close>

fun parse_alternatives :: "string list \<Rightarrow> string list list" where
  "parse_alternatives [] = []"
| "parse_alternatives (alt # alts) =
     (let alt' = TrimSpace alt in
      if alt' = [] then parse_alternatives alts
      else (let symbols = parseSymbols alt' in
            if 0 < length symbols then symbols # parse_alternatives alts
            else parse_alternatives alts))"

text \<open>Storing the bodies of a line: appended to the head's production, or a new one.\<close>

fun add_bodies :: "string \<Rightarrow> string list list \<Rightarrow> (string \<times> Production) list
    \<Rightarrow> (string \<times> Production) list" where
  "add_bodies head bodies [] = [(head, \<lparr>Head = head, Body = bodies\<rparr>)]"
| "add_bodies head bodies ((k, existing) # ps) =
     (if k = head then (k, existing\<lparr>Body := Body existing @ bodies\<rparr>) # ps
      else (k, existing) # add_bodies head bodies ps)"

text \<open>One pass of the loop over the lines; the state is the grammar and \<^verbatim>\<open>isFirst\<close>.\<close>

definition ParseGrammar_line :: "string \<Rightarrow> Grammar \<times> bool \<Rightarrow> Grammar \<times> bool" where
  "ParseGrammar_line line0 st =
     (let (grammar, isFirst) = st;
          line = TrimSpace line0 in
      if line = [] \<or> HasPrefix line ''//'' \<or> HasPrefix line ''#'' then st
      else (let parts = regexp_Split2 line in
        if length parts \<noteq> 2 then st
        else (let head = TrimSpace (parts ! 0) in
          if head = [] then st
          else (let g1 = grammar\<lparr>NonTerminals := insert head (NonTerminals grammar)\<rparr>;
                    g2 = (if isFirst then g1\<lparr>StartSymbol := head\<rparr> else g1);
                    alternatives = Split (parts ! 1) CHR ''|'';
                    bodies = parse_alternatives alternatives
                in (g2\<lparr>Productions := add_bodies head bodies (Productions g2)\<rparr>, False)))))"

definition body_symbols :: "(string \<times> Production) list \<Rightarrow> string list" where
  "body_symbols ps = concat (concat (map (\<lambda>(k, prod). Body prod) ps))"

text \<open>\<^verbatim>\<open>ParseGrammar\<close>; the error it returns besides the grammar is always \<^verbatim>\<open>nil\<close>.\<close>

definition ParseGrammar :: "string \<Rightarrow> Grammar" where
  "ParseGrammar text =
     (let g0 = \<lparr>Productions = [], StartSymbol = [], Terminals = {}, NonTerminals = {}\<rparr>;
          lines = Split text CHR 0x0A;
          (g, isFirst) = foldl (\<lambda>st line. ParseGrammar_line line st) (g0, True) lines
      in g\<lparr>Terminals := set (filter (\<lambda>symbol. symbol \<notin> NonTerminals g \<and> symbol \<noteq> eps
                                           \<and> symbol \<noteq> ''epsilon'')
                               (body_symbols (Productions g)))\<rparr>)"

definition GetDefaultArithmeticGrammar :: string where
  "GetDefaultArithmeticGrammar =
     ''E  -> T E'' @ [CHR 0x27, CHR 0x0A] @
     ''E' -> + T E' | - T E' | '' @ eps @ [CHR 0x0A] @
     ''T  -> F T'' @ [CHR 0x27, CHR 0x0A] @
     ''T' -> * F T' | / F T' | '' @ eps @ [CHR 0x0A] @
     ''F  -> ( E ) | number''"

record ValidationResult =
  Valid :: bool
  Errors :: "string list"
  Warnings :: "string list"

definition undefined_symbols :: "Grammar \<Rightarrow> string list" where
  "undefined_symbols grammar =
     filter (\<lambda>symbol. symbol \<in> NonTerminals grammar \<and> map_of (Productions grammar) symbol = None)
       (body_symbols (Productions grammar))"

definition left_recursion_warnings :: "Grammar \<Rightarrow> string list" where
  "left_recursion_warnings grammar =
     concat (map (\<lambda>(head, prod).
        map (\<lambda>alt. ''Potential left recursion in production: '' @ head @ '' -> '' @ Join alt '' '')
          (filter (\<lambda>alt. 0 < length alt \<and> hd alt = head) (Body prod)))
      (Productions grammar))"

definition ValidateGrammar :: "Grammar \<Rightarrow> ValidationResult" where
  "ValidateGrammar grammar =
     (if StartSymbol grammar = [] then
        \<lparr>Valid = False, Errors = [''No start symbol defined''], Warnings = []\<rparr>
      else if map_of (Productions grammar) (StartSymbol grammar) = None then
        \<lparr>Valid = False, Errors = [''Start symbol has no productions''], Warnings = []\<rparr>
      else
        \<lparr>Valid = (undefined_symbols grammar = []),
         Errors = map (\<lambda>symbol. ''Undefined non-terminal: '' @ symbol) (undefined_symbols grammar),
         Warnings = left_recursion_warnings grammar\<rparr>)"

section \<open>Result and step model (types.go)\<close>

text \<open>
  A tree node owns its children.  The field \<^verbatim>\<open>Value\<close> of a node and the field
  \<^verbatim>\<open>Tree\<close> of a step are never written by the engine and are left out.  The node
  counter, the node ids and the parent ids are Go \<^verbatim>\<open>int\<close>s (64 bits); they count
  created nodes, far below the range, and are modelled as integers.
\<close>

datatype TreeNode = TreeNode (ID: int) (Label: string) (Children: "TreeNode list") (IsTerminal: bool)

record Step =
  Action :: string
  Description :: string
  NodeID :: int
  ParentID :: int

record ParseResult =
  Success :: bool
  Tree :: "TreeNode option"
  Steps :: "Step list"
  Error :: string
  Tokens :: "Token list"

section \<open>Parser engine (parser.go)\<close>

record Parser =
  grammar :: Grammar
  tokens :: "Token list"
  pos :: nat
  nodeID :: int
  steps :: "Step list"
  recordSteps :: bool

definition NewParser :: "Grammar \<Rightarrow> Parser" where
  "NewParser g = \<lparr>grammar = g, tokens = [], pos = 0, nodeID = 0, steps = [], recordSteps = False\<rparr>"

definition current :: "Parser \<Rightarrow> Token" where
  "current p =
     (if pos p \<ge> length (tokens p) then \<lparr>Type = TOKEN_EOF, Value = [], Position = pos p\<rparr>
      else tokens p ! pos p)"

definition advance :: "Parser \<Rightarrow> Parser" where
  "advance p = (if pos p < length (tokens p) then p\<lparr>pos := pos p + 1\<rparr> else p)"

definition builtin_terminals :: "string list" where
  "builtin_terminals = [''number'', ''+'', ''-'', ''*'', ''/'', ''('', '')'', eps, ''epsilon'']"

definition isTerminal :: "Parser \<Rightarrow> string \<Rightarrow> bool" where
  "isTerminal p symbol =
     (if symbol \<in> Terminals (grammar p) then True else symbol \<in> set builtin_terminals)"

definition buildStepDescription :: "string \<Rightarrow> bool \<Rightarrow> string" where
  "buildStepDescription label isTerm =
     (if isTerm then
        (if label = eps then ''Match epsilon (empty string)''
         else ''Match terminal '' @ [CHR 0x27] @ label @ [CHR 0x27])
      else ''Expand non-terminal <'' @ label @ ''>'')"

definition createNode :: "Parser \<Rightarrow> string \<Rightarrow> bool \<Rightarrow> int \<Rightarrow> TreeNode \<times> Parser" where
  "createNode p label isTerm parentID =
     (let p1 = p\<lparr>nodeID := nodeID p + 1\<rparr>;
          node = TreeNode (nodeID p1) label [] isTerm
      in if recordSteps p1 then
           (node, p1\<lparr>steps := steps p1 @
              [\<lparr>Action = ''add'', Description = buildStepDescription label isTerm,
                NodeID = ID node, ParentID = parentID\<rparr>]\<rparr>)
         else (node, p1))"

text \<open>
  An \<^verbatim>\<open>error\<close> of the engine is made by \<^verbatim>\<open>fmt.Errorf\<close> and only ever read through
  \<^verbatim>\<open>err.Error()\<close>: it is its message.  A call returns the error or the value
  (\<open>Inl\<close> the error), and the parser's state after the call.
\<close>

definition terminal_matches :: "string \<Rightarrow> Token \<Rightarrow> bool" where
  "terminal_matches symbol token =
     (if symbol = ''number'' then Type token = TOKEN_NUMBER
      else if symbol = ''+'' then Type token = TOKEN_PLUS
      else if symbol = ''-'' then Type token = TOKEN_MINUS
      else if symbol = ''*'' then Type token = TOKEN_MULT
      else if symbol = ''/'' then Type token = TOKEN_DIV
      else if symbol = ''('' then Type token = TOKEN_LPAREN
      else if symbol = '')'' then Type token = TOKEN_RPAREN
      else Value token = symbol)"

definition matchTerminal :: "Parser \<Rightarrow> string \<Rightarrow> int \<Rightarrow> (string + TreeNode) \<times> Parser" where
  "matchTerminal p symbol parentID =
     (let token = current p;
          matched = terminal_matches symbol token
      in if \<not> matched then
           (Inl (''expected '' @ [CHR 0x27] @ symbol @ [CHR 0x27] @ '', got '' @ [CHR 0x27]
                 @ Value token @ [CHR 0x27] @ '' at position '' @ show_nat (Position token)), p)
         else (let displayValue = Value token;
                   (node, p1) = createNode p displayValue True parentID
               in (Inr node, advance p1)))"

text \<open>
  \<^verbatim>\<open>parseNonTerminal\<close> and \<^verbatim>\<open>parseAlternative\<close> call each other, and on a grammar
  that is left recursive they never return.  The first argument bounds the depth of the
  calls of \<^verbatim>\<open>parseNonTerminal\<close>; \<open>None\<close> is a run that needs more.
  \<open>parseAlts\<close> is the loop of \<^verbatim>\<open>parseNonTerminal\<close> over the alternatives that are
  left to try, and \<open>parseAlternative\<close> carries the children collected so far.
\<close>

fun parseNonTerminal :: "nat \<Rightarrow> Parser \<Rightarrow> string \<Rightarrow> int \<Rightarrow> ((string + TreeNode) \<times> Parser) option"
  and parseAlts :: "nat \<Rightarrow> Parser \<Rightarrow> string \<Rightarrow> TreeNode \<Rightarrow> string list list
      \<Rightarrow> ((string + TreeNode) \<times> Parser) option"
  and parseAlternative :: "nat \<Rightarrow> Parser \<Rightarrow> TreeNode list \<Rightarrow> string list \<Rightarrow> int
      \<Rightarrow> ((string + TreeNode list) \<times> Parser) option"
where
  "parseNonTerminal 0 p symbol parentID = None"
| "parseNonTerminal (Suc n) p symbol parentID =
     (case map_of (Productions (grammar p)) symbol of
        None \<Rightarrow> Some (Inl (''undefined non-terminal: '' @ symbol), p)
      | Some production \<Rightarrow>
          (case createNode p symbol False parentID of
             (node, p1) \<Rightarrow> parseAlts n p1 symbol node (Body production)))"
| "parseAlts n p symbol node [] =
     Some (Inl (''no matching production for '' @ symbol @ '' at position '' @ show_nat (pos p)
                @ '' (found '' @ [CHR 0x27] @ Value (current p) @ [CHR 0x27] @ '')''), p)"
| "parseAlts n p symbol node (alt # alts) =
     (let savedPos = pos p;
          savedStepsLen = length (steps p)
      in case parseAlternative n p [] alt (ID node) of
           None \<Rightarrow> None
         | Some (Inr children, p1) \<Rightarrow>
             Some (Inr (TreeNode (ID node) (Label node) children (IsTerminal node)), p1)
         | Some (Inl err, p1) \<Rightarrow>
             parseAlts n (p1\<lparr>pos := savedPos, steps := take savedStepsLen (steps p1)\<rparr>)
               symbol node alts)"
| "parseAlternative n p children [] parentID = Some (Inr children, p)"
| "parseAlternative n p children (symbol # symbols) parentID =
     (if symbol = eps \<or> symbol = ''epsilon'' then
        (case createNode p eps True parentID of
           (epsilonNode, p1) \<Rightarrow> parseAlternative n p1 (children @ [epsilonNode]) symbols parentID)
      else if isTerminal p symbol then
        (case matchTerminal p symbol parentID of
           (Inl err, p1) \<Rightarrow> Some (Inl err, p1)
         | (Inr termNode, p1) \<Rightarrow> parseAlternative n p1 (children @ [termNode]) symbols parentID)
      else
        (case parseNonTerminal n p symbol parentID of
           None \<Rightarrow> None
         | Some (Inl err, p1) \<Rightarrow> Some (Inl err, p1)
         | Some (Inr subtree, p1) \<Rightarrow> parseAlternative n p1 (children @ [subtree]) symbols parentID))"

text \<open>
  \<^verbatim>\<open>Parse\<close>: the result and the parser after the call, which the method updates in
  place.
\<close>

definition Parse :: "nat \<Rightarrow> Parser \<Rightarrow> string \<Rightarrow> bool \<Rightarrow> (ParseResult \<times> Parser) option" where
  "Parse fuel p0 inp rec =
     (let toks = Tokenize (NewLexer inp);
          p = p0\<lparr>tokens := toks, pos := 0, nodeID := 0, steps := [], recordSteps := rec\<rparr>;
          result = \<lparr>Success = True, Tree = None, Steps = [], Error = [], Tokens = toks\<rparr>
      in if StartSymbol (grammar p) = [] then
           Some (result\<lparr>Success := False, Error := ''Grammar has no start symbol''\<rparr>, p)
         else
           (case parseNonTerminal fuel p (StartSymbol (grammar p)) (- 1) of
              None \<Rightarrow> None
            | Some (Inl err, p1) \<Rightarrow> Some (result\<lparr>Success := False, Error := err\<rparr>, p1)
            | Some (Inr tree, p1) \<Rightarrow>
                if Type (current p1) \<noteq> TOKEN_EOF then
                  Some (result\<lparr>Success := False,
                          Error := ''Unexpected token '' @ [CHR 0x27] @ Value (current p1)
                                   @ [CHR 0x27] @ '' at position ''
                                   @ show_nat (Position (current p1))\<rparr>, p1)
                else Some (result\<lparr>Tree := Some tree, Steps := steps p1\<rparr>, p1)))"

definition ParseWithDefaultGrammar :: "nat \<Rightarrow> string \<Rightarrow> bool \<Rightarrow> ParseResult option" where
  "ParseWithDefaultGrammar fuel inp rec =
     map_option fst (Parse fuel (NewParser (ParseGrammar GetDefaultArithmeticGrammar)) inp rec)"

section \<open>Replaying a step log\<close>

text \<open>
  The steps that building a tree records, in the order of creation: the node itself,
  with the id of its parent, then the steps of its children from left to right.
\<close>

fun steps_of :: "int \<Rightarrow> TreeNode \<Rightarrow> Step list" where
  "steps_of parent (TreeNode i l cs t) =
     \<lparr>Action = ''add'', Description = buildStepDescription l t, NodeID = i, ParentID = parent\<rparr>
     # concat (map (steps_of i) cs)"

fun ids_of :: "TreeNode \<Rightarrow> int list" where
  "ids_of (TreeNode i l cs t) = i # concat (map ids_of cs)"

definition ids_list :: "TreeNode list \<Rightarrow> int list" where
  "ids_list ts = concat (map ids_of ts)"

text \<open>
  The replay of a step log by a renderer, as the interface contract words it: every step
  creates a node with the id of the step, whose label and terminal flag are read off the
  description; the node is attached as the last child of the node whose id is the step's
  parent id, or becomes a root when the parent id is the sentinel \<open>-1\<close>.  A step whose
  parent has not been created yet cannot be replayed (\<open>None\<close>).
\<close>

definition decode_description :: "string \<Rightarrow> string \<times> bool" where
  "decode_description d =
     (if d = ''Match epsilon (empty string)'' then (eps, True)
      else if HasPrefix d (''Match terminal '' @ [CHR 0x27]) then (butlast (drop 16 d), True)
      else (butlast (drop 21 d), False))"

definition step_node :: "Step \<Rightarrow> TreeNode" where
  "step_node s =
     (case decode_description (Description s) of (label, t) \<Rightarrow> TreeNode (NodeID s) label [] t)"

fun attach :: "int \<Rightarrow> TreeNode \<Rightarrow> TreeNode \<Rightarrow> TreeNode option"
  and attach_list :: "int \<Rightarrow> TreeNode \<Rightarrow> TreeNode list \<Rightarrow> TreeNode list option"
where
  "attach parent n (TreeNode i l cs t) =
     (if i = parent then Some (TreeNode i l (cs @ [n]) t)
      else (case attach_list parent n cs of
              None \<Rightarrow> None
            | Some cs' \<Rightarrow> Some (TreeNode i l cs' t)))"
| "attach_list parent n [] = None"
| "attach_list parent n (c # cs) =
     (case attach parent n c of
        Some c' \<Rightarrow> Some (c' # cs)
      | None \<Rightarrow> (case attach_list parent n cs of
                   None \<Rightarrow> None
                 | Some cs' \<Rightarrow> Some (c # cs')))"

fun replay_steps :: "TreeNode list \<Rightarrow> Step list \<Rightarrow> TreeNode list option" where
  "replay_steps roots [] = Some roots"
| "replay_steps roots (s # ss) =
     (if ParentID s = - 1 then replay_steps (roots @ [step_node s]) ss
      else (case attach_list (ParentID s) (step_node s) roots of
              None \<Rightarrow> None
            | Some roots' \<Rightarrow> replay_steps roots' ss))"

section \<open>What a call leaves unchanged\<close>

text \<open>
  \<open>frame p p'\<close>: the state \<open>p'\<close> has the grammar, the tokens and the recording flag of
  \<open>p\<close>; the node counter and the cursor have not gone back, and the step log has only
  grown at its end.
\<close>

definition frame :: "Parser \<Rightarrow> Parser \<Rightarrow> bool" where
  "frame p p' =
     (grammar p' = grammar p \<and> tokens p' = tokens p \<and> recordSteps p' = recordSteps p
      \<and> nodeID p \<le> nodeID p' \<and> pos p \<le> pos p' \<and> prefix (steps p) (steps p'))"

lemma frame_refl: "frame p p"
  by (simp add: frame_def)

lemma frame_trans: "frame p q \<Longrightarrow> frame q r \<Longrightarrow> frame p r"
  by (auto simp: frame_def intro: prefix_order.trans)

lemma frame_createNode: "createNode p label t par = (node, p1) \<Longrightarrow> frame p p1"
  by (auto simp: createNode_def frame_def Let_def split: if_splits)

lemma frame_advance: "frame p (advance p)"
  by (simp add: advance_def frame_def)

lemma frame_matchTerminal: "matchTerminal p symbol par = (r, p1) \<Longrightarrow> frame p p1"
  by (auto simp: matchTerminal_def Let_def split: if_splits prod.splits
      intro: frame_refl frame_trans [OF frame_createNode frame_advance])

lemma frame_restore:
  "frame p p1 \<Longrightarrow> frame p (p1\<lparr>pos := pos p, steps := take (length (steps p)) (steps p1)\<rparr>)"
  by (auto simp: frame_def prefix_def)

lemma frame_parse:
  "parseNonTerminal n p symbol parentID = Some (r, p') \<longrightarrow> frame p p'"
  "parseAlts n p symbol node alts = Some (r, p') \<longrightarrow> frame p p'"
  "parseAlternative n p children symbols parentID = Some (r2, p') \<longrightarrow> frame p p'"
proof (induction n p symbol parentID and n p symbol node alts and n p children symbols parentID
    arbitrary: r p' and r p' and r2 p'
    rule: parseNonTerminal_parseAlts_parseAlternative.induct)
  case (1 p symbol parentID)
  then show ?case by simp
next
  case (2 n p symbol parentID)
  show ?case
  proof
    assume a: "parseNonTerminal (Suc n) p symbol parentID = Some (r, p')"
    show "frame p p'"
    proof (cases "map_of (Productions (grammar p)) symbol")
      case None
      with a show ?thesis by (simp add: frame_refl)
    next
      case (Some production)
      obtain node p1 where c: "createNode p symbol False parentID = (node, p1)"
        by (cases "createNode p symbol False parentID")
      from a Some c have "parseAlts n p1 symbol node (Body production) = Some (r, p')" by simp
      with "2.IH" [OF Some c [symmetric]] have "frame p1 p'" by simp
      with frame_createNode [OF c] show ?thesis by (rule frame_trans)
    qed
  qed
next
  case (3 n p symbol node)
  then show ?case by (simp add: frame_refl)
next
  case (4 n p symbol node alt alts)
  show ?case
  proof
    assume a: "parseAlts n p symbol node (alt # alts) = Some (r, p')"
    then obtain x p1 where b: "parseAlternative n p [] alt (ID node) = Some (x, p1)"
      by (auto simp: Let_def split: option.splits)
    from "4.IH"(1) [OF refl refl] b have f1: "frame p p1" by simp
    show "frame p p'"
    proof (cases x)
      case (Inl err)
      with a b have "parseAlts n (p1\<lparr>pos := pos p, steps := take (length (steps p)) (steps p1)\<rparr>)
            symbol node alts = Some (r, p')" by (simp add: Let_def)
      with "4.IH"(2) [OF refl refl b refl Inl]
      have "frame (p1\<lparr>pos := pos p, steps := take (length (steps p)) (steps p1)\<rparr>) p'" by simp
      with frame_restore [OF f1] show ?thesis by (rule frame_trans)
    next
      case (Inr ch)
      with a b have "p' = p1" by (simp add: Let_def)
      with f1 show ?thesis by simp
    qed
  qed
next
  case (5 n p children parentID)
  then show ?case by (simp add: frame_refl)
next
  case (6 n p children symbol symbols parentID)
  show ?case
  proof
    assume a: "parseAlternative n p children (symbol # symbols) parentID = Some (r2, p')"
    consider (e) "symbol = eps \<or> symbol = ''epsilon''"
      | (t) "\<not> (symbol = eps \<or> symbol = ''epsilon'')" "isTerminal p symbol"
      | (n) "\<not> (symbol = eps \<or> symbol = ''epsilon'')" "\<not> isTerminal p symbol"
      by blast
    then show "frame p p'"
    proof cases
      case e
      obtain node p1 where c: "createNode p eps True parentID = (node, p1)"
        by (cases "createNode p eps True parentID")
      from a e c have "parseAlternative n p1 (children @ [node]) symbols parentID = Some (r2, p')"
        by simp
      with "6.IH"(1) [OF e c [symmetric]] have "frame p1 p'" by simp
      with frame_createNode [OF c] show ?thesis by (rule frame_trans)
    next
      case t
      obtain x p1 where c: "matchTerminal p symbol parentID = (x, p1)"
        by (cases "matchTerminal p symbol parentID")
      show ?thesis
      proof (cases x)
        case (Inl err)
        with a t c have "p' = p1" by simp
        with frame_matchTerminal [OF c] show ?thesis by simp
      next
        case (Inr b)
        with a t c have "parseAlternative n p1 (children @ [b]) symbols parentID = Some (r2, p')"
          by simp
        with "6.IH"(2) [OF t c [symmetric] Inr] have "frame p1 p'" by simp
        with frame_matchTerminal [OF c] show ?thesis by (rule frame_trans)
      qed
    next
      case n
      from a n obtain x p1 where c: "parseNonTerminal n p symbol parentID = Some (x, p1)"
        by (auto split: option.splits)
      from "6.IH"(3) [OF n] c have f1: "frame p p1" by simp
      show ?thesis
      proof (cases x)
        case (Inl err)
        with a n c have "p' = p1" by simp
        with f1 show ?thesis by simp
      next
        case (Inr b)
        with a n c have "parseAlternative n p1 (children @ [b]) symbols parentID = Some (r2, p')"
          by simp
        with "6.IH"(4) [OF n c refl Inr] have "frame p1 p'" by simp
        with f1 show ?thesis by (rule frame_trans)
      qed
    qed
  qed
qed

section \<open>More depth never changes a result\<close>

lemma fuel_mono:
  "parseNonTerminal n p symbol parentID = Some r \<longrightarrow> (\<forall>m\<ge>n. parseNonTerminal m p symbol parentID = Some r)"
  "parseAlts n p symbol node alts = Some r \<longrightarrow> (\<forall>m\<ge>n. parseAlts m p symbol node alts = Some r)"
  "parseAlternative n p children symbols parentID = Some r2
     \<longrightarrow> (\<forall>m\<ge>n. parseAlternative m p children symbols parentID = Some r2)"
proof (induction n p symbol parentID and n p symbol node alts and n p children symbols parentID
    arbitrary: r and r and r2
    rule: parseNonTerminal_parseAlts_parseAlternative.induct)
  case (1 p symbol parentID)
  then show ?case by simp
next
  case (2 n p symbol parentID)
  show ?case
  proof (intro impI allI)
    fix m
    assume a: "parseNonTerminal (Suc n) p symbol parentID = Some r" and m: "Suc n \<le> m"
    then obtain m' where m': "m = Suc m'" "n \<le> m'" by (cases m) auto
    show "parseNonTerminal m p symbol parentID = Some r"
    proof (cases "map_of (Productions (grammar p)) symbol")
      case None
      with a m' show ?thesis by simp
    next
      case (Some production)
      obtain node p1 where c: "createNode p symbol False parentID = (node, p1)"
        by (cases "createNode p symbol False parentID")
      from a Some c have "parseAlts n p1 symbol node (Body production) = Some r" by simp
      with "2.IH" [OF Some c [symmetric]] m'
      have "parseAlts m' p1 symbol node (Body production) = Some r" by simp
      with Some c m' show ?thesis by simp
    qed
  qed
next
  case (3 n p symbol node)
  then show ?case by simp
next
  case (4 n p symbol node alt alts)
  show ?case
  proof (intro impI allI)
    fix m
    assume a: "parseAlts n p symbol node (alt # alts) = Some r" and m: "n \<le> m"
    then obtain x p1 where b: "parseAlternative n p [] alt (ID node) = Some (x, p1)"
      by (auto simp: Let_def split: option.splits)
    from "4.IH"(1) [OF refl refl] b m
    have b': "parseAlternative m p [] alt (ID node) = Some (x, p1)" by simp
    show "parseAlts m p symbol node (alt # alts) = Some r"
    proof (cases x)
      case (Inl err)
      with a b have "parseAlts n (p1\<lparr>pos := pos p, steps := take (length (steps p)) (steps p1)\<rparr>)
            symbol node alts = Some r" by (simp add: Let_def)
      with "4.IH"(2) [OF refl refl b refl Inl] m
      have "parseAlts m (p1\<lparr>pos := pos p, steps := take (length (steps p)) (steps p1)\<rparr>)
            symbol node alts = Some r" by simp
      with b' Inl show ?thesis by (simp add: Let_def)
    next
      case (Inr ch)
      with a b b' show ?thesis by (simp add: Let_def)
    qed
  qed
next
  case (5 n p children parentID)
  then show ?case by simp
next
  case (6 n p children symbol symbols parentID)
  show ?case
  proof (intro impI allI)
    fix m
    assume a: "parseAlternative n p children (symbol # symbols) parentID = Some r2" and m: "n \<le> m"
    consider (e) "symbol = eps \<or> symbol = ''epsilon''"
      | (t) "\<not> (symbol = eps \<or> symbol = ''epsilon'')" "isTerminal p symbol"
      | (n) "\<not> (symbol = eps \<or> symbol = ''epsilon'')" "\<not> isTerminal p symbol"
      by blast
    then show "parseAlternative m p children (symbol # symbols) parentID = Some r2"
    proof cases
      case e
      obtain node p1 where c: "createNode p eps True parentID = (node, p1)"
        by (cases "createNode p eps True parentID")
      from a e c have "parseAlternative n p1 (children @ [node]) symbols parentID = Some r2"
        by simp
      with "6.IH"(1) [OF e c [symmetric]] m
      have "parseAlternative m p1 (children @ [node]) symbols parentID = Some r2" by simp
      with e c show ?thesis by simp
    next
      case t
      obtain x p1 where c: "matchTerminal p symbol parentID = (x, p1)"
        by (cases "matchTerminal p symbol parentID")
      show ?thesis
      proof (cases x)
        case (Inl err)
        with a t c show ?thesis by simp
      next
        case (Inr b)
        with a t c have "parseAlternative n p1 (children @ [b]) symbols parentID = Some r2"
          by simp
        with "6.IH"(2) [OF t c [symmetric] Inr] m
        have "parseAlternative m p1 (children @ [b]) symbols parentID = Some r2" by simp
        with t c Inr show ?thesis by simp
      qed
    next
      case n
      from a n obtain x p1 where c: "parseNonTerminal n p symbol parentID = Some (x, p1)"
        by (auto split: option.splits)
      from "6.IH"(3) [OF n] c m
      have c': "parseNonTerminal m p symbol parentID = Some (x, p1)" by simp
      show ?thesis
      proof (cases x)
        case (Inl err)
        with a n c c' show ?thesis by simp
      next
        case (Inr b)
        with a n c have "parseAlternative n p1 (children @ [b]) symbols parentID = Some r2"
          by simp
        with "6.IH"(4) [OF n c refl Inr] m
        have "parseAlternative m p1 (children @ [b]) symbols parentID = Some r2" by simp
        with n c' Inr show ?thesis by simp
      qed
    qed
  qed
qed

lemma Parse_fuel_mono:
  assumes "Parse n p inp rec = Some r" and "n \<le> m"
  shows "Parse m p inp rec = Some r"
proof -
  define q where "q = p\<lparr>tokens := Tokenize (NewLexer inp), pos := 0, nodeID := 0, steps := [],
      recordSteps := rec\<rparr>"
  show ?thesis
  proof (cases "StartSymbol (grammar q) = []")
    case True
    with assms show ?thesis by (simp add: Parse_def Let_def q_def)
  next
    case False
    with assms(1) obtain x where x: "parseNonTerminal n q (StartSymbol (grammar q)) (- 1) = Some x"
      by (cases "parseNonTerminal n q (StartSymbol (grammar q)) (- 1)")
         (simp_all add: Parse_def Let_def q_def)
    with fuel_mono(1) assms(2)
    have "parseNonTerminal m q (StartSymbol (grammar q)) (- 1) = Some x" by blast
    with x assms(1) False show ?thesis by (simp add: Parse_def Let_def q_def)
  qed
qed

section \<open>The claims\<close>

text \<open>
  C6.  Parsing the input \<open>2\<close> with step recording against the grammar \<open>F -> number\<close>
  yields a step log of exactly two steps, at every depth bound that lets the parse
  return (one level is enough): first \<open>Expand non-terminal <F>\<close> with the root sentinel
  \<open>-1\<close> as parent and node id 1, then \<open>Match terminal '2'\<close> with parent 1, the id of
  the node of \<open>F\<close>.
\<close>

theorem step_log_F_number:
  "map_option (\<lambda>r. Steps (fst r))
     (Parse (Suc n) (NewParser (ParseGrammar ''F -> number'')) ''2'' True) =
   Some [\<lparr>Action = ''add'', Description = ''Expand non-terminal <F>'', NodeID = 1, ParentID = - 1\<rparr>,
         \<lparr>Action = ''add'', Description = ''Match terminal '' @ [CHR 0x27] @ ''2'' @ [CHR 0x27],
          NodeID = 2, ParentID = 1\<rparr>]"
proof -
  have one: "map_option (\<lambda>r. Steps (fst r))
     (Parse 1 (NewParser (ParseGrammar ''F -> number'')) ''2'' True) =
   Some [\<lparr>Action = ''add'', Description = ''Expand non-terminal <F>'', NodeID = 1, ParentID = - 1\<rparr>,
         \<lparr>Action = ''add'', Description = ''Match terminal '' @ [CHR 0x27] @ ''2'' @ [CHR 0x27],
          NodeID = 2, ParentID = 1\<rparr>]"
    by code_simp
  then obtain r where r: "Parse 1 (NewParser (ParseGrammar ''F -> number'')) ''2'' True = Some r"
    by (cases "Parse 1 (NewParser (ParseGrammar ''F -> number'')) ''2'' True") simp_all
  have "Parse (Suc n) (NewParser (ParseGrammar ''F -> number'')) ''2'' True = Some r"
    by (rule Parse_fuel_mono [OF r]) simp
  with one r show ?thesis by (cases r) auto
qed

lemma ParseWithDefaultGrammar_fuel_mono:
  assumes "ParseWithDefaultGrammar n inp rec = Some r" and "n \<le> m"
  shows "ParseWithDefaultGrammar m inp rec = Some r"
proof -
  from assms(1) obtain x
    where x: "Parse n (NewParser (ParseGrammar GetDefaultArithmeticGrammar)) inp rec = Some x"
      and r: "r = fst x"
    by (auto simp: ParseWithDefaultGrammar_def)
  from Parse_fuel_mono [OF x assms(2)] r show ?thesis
    by (simp add: ParseWithDefaultGrammar_def)
qed

text \<open>
  C4, as the specification states it: with the default arithmetic grammar and the input
  \<open>3 +\<close> the parse fails and the error is about an unmatched or missing terminal after
  the \<open>+\<close>.  The parse does fail, but with another error.  After \<open>3\<close> the non-terminal
  \<open>E'\<close> tries \<open>+ T E'\<close>, which fails at the end of the input, backtracks, and then
  succeeds with its empty alternative; the start symbol therefore succeeds with the
  cursor on the \<open>+\<close>, and \<^verbatim>\<open>Parse\<close> reports that token as unexpected, at its own
  position 2.  The message is not the one \<^verbatim>\<open>matchTerminal\<close> makes for an unmatched
  terminal, which begins with \<open>expected\<close>.
\<close>

theorem trailing_plus_counterexample:
  "map_option Success (ParseWithDefaultGrammar 4 ''3 +'' True) = Some False
   \<and> map_option Error (ParseWithDefaultGrammar 4 ''3 +'' True)
       = Some ''Unexpected token '+' at position 2''
   \<and> \<not> HasPrefix ''Unexpected token '+' at position 2'' ''expected''"
  by code_simp

text \<open>
  C4, amended: with the default arithmetic grammar and the input \<open>3 +\<close>, at every depth
  bound from 4 on and with or without step recording, \<^verbatim>\<open>Parse\<close> returns failure
  with the trailing-input error \<open>Unexpected token '+' at position 2\<close>, which names the
  \<open>+\<close> itself; no tree and no steps are returned, and the tokens are those of the input.
\<close>

theorem trailing_plus_error:
  "ParseWithDefaultGrammar (4 + n) ''3 +'' rec =
   Some \<lparr>Success = False, Tree = None, Steps = [],
         Error = ''Unexpected token '+' at position 2'',
         Tokens = [\<lparr>Type = TOKEN_NUMBER, Value = ''3'', Position = 0\<rparr>,
                   \<lparr>Type = TOKEN_PLUS, Value = ''+'', Position = 2\<rparr>,
                   \<lparr>Type = TOKEN_EOF, Value = [], Position = 3\<rparr>]\<rparr>"
proof (cases rec)
  case True
  have "ParseWithDefaultGrammar 4 ''3 +'' True =
   Some \<lparr>Success = False, Tree = None, Steps = [],
         Error = ''Unexpected token '+' at position 2'',
         Tokens = [\<lparr>Type = TOKEN_NUMBER, Value = ''3'', Position = 0\<rparr>,
                   \<lparr>Type = TOKEN_PLUS, Value = ''+'', Position = 2\<rparr>,
                   \<lparr>Type = TOKEN_EOF, Value = [], Position = 3\<rparr>]\<rparr>"
    by code_simp
  from ParseWithDefaultGrammar_fuel_mono [OF this, of "4 + n"] True show ?thesis by simp
next
  case False
  have "ParseWithDefaultGrammar 4 ''3 +'' False =
   Some \<lparr>Success = False, Tree = None, Steps = [],
         Error = ''Unexpected token '+' at position 2'',
         Tokens = [\<lparr>Type = TOKEN_NUMBER, Value = ''3'', Position = 0\<rparr>,
                   \<lparr>Type = TOKEN_PLUS, Value = ''+'', Position = 2\<rparr>,
                   \<lparr>Type = TOKEN_EOF, Value = [], Position = 3\<rparr>]\<rparr>"
    by code_simp
  from ParseWithDefaultGrammar_fuel_mono [OF this, of "4 + n"] False show ?thesis by simp
qed

text \<open>
  C5.  A line \<open>X ->\<close> contributes no alternative to the production of \<open>X\<close>, but it does
  store a production for \<open>X\<close>, with an empty body.  \<^verbatim>\<open>ValidateGrammar\<close> reports a
  non-terminal as undefined only when it has no production at all, so the grammar
  \<open>S -> X\<close>, \<open>X ->\<close>, in which \<open>X\<close> is referenced, is found valid, with no error.
\<close>

theorem empty_body_is_valid:
  "map_of (Productions (ParseGrammar (''S -> X'' @ [CHR 0x0A] @ ''X ->''))) ''X''
     = Some \<lparr>Head = ''X'', Body = []\<rparr>
   \<and> ValidateGrammar (ParseGrammar (''S -> X'' @ [CHR 0x0A] @ ''X ->''))
     = \<lparr>Valid = True, Errors = [], Warnings = []\<rparr>"
  by code_simp


lemma restore_eq:
  assumes "frame p p1"
  shows "p1\<lparr>pos := pos p, steps := take (length (steps p)) (steps p1)\<rparr> = p\<lparr>nodeID := nodeID p1\<rparr>"
proof -
  from assms obtain zs where "steps p1 = steps p @ zs" by (auto simp: frame_def prefix_def)
  with assms show ?thesis by (cases p, cases p1) (simp add: frame_def)
qed

text \<open>
  C2.  When an alternative fails in \<^verbatim>\<open>parseNonTerminal\<close>, whatever it consumed and
  recorded (the cursor may have advanced, the step log may have grown at its end), the
  loop goes on with the alternatives that are left in the state from before the attempt:
  same cursor, same step log, same tokens and grammar.  Only the node counter keeps the
  value the failed attempt left.  So the tokens a failing \<open>A\<close> consumed are there again
  for \<open>B\<close>.
\<close>

theorem backtrack_restores:
  assumes "parseAlternative n p [] alt (ID node) = Some (Inl err, p1)"
  shows "parseAlts n p symbol node (alt # alts)
           = parseAlts n (p\<lparr>nodeID := nodeID p1\<rparr>) symbol node alts
         \<and> pos p \<le> pos p1 \<and> prefix (steps p) (steps p1)"
proof -
  from frame_parse(3) assms have f: "frame p p1" by blast
  from assms have "parseAlts n p symbol node (alt # alts)
      = parseAlts n (p1\<lparr>pos := pos p, steps := take (length (steps p)) (steps p1)\<rparr>) symbol node alts"
    by (simp add: Let_def)
  with restore_eq [OF f] f show ?thesis by (simp add: frame_def)
qed

text \<open>
  The witness: the grammar \<open>S -> a b | a c\<close> on the input \<open>a c\<close>, in the state right
  after the node of \<open>S\<close> was created.  The first alternative consumes \<open>a\<close>, records a
  step and fails on \<open>c\<close>; the second alternative starts at \<open>a\<close> again and succeeds, and
  the step of the failed attempt is gone from the log.
\<close>

definition bt_parser :: Parser where
  "bt_parser = \<lparr>grammar = ParseGrammar ''S -> a b | a c'', tokens = Tokenize (NewLexer ''a c''),
     pos = 0, nodeID = 1,
     steps = [\<lparr>Action = ''add'', Description = ''Expand non-terminal <S>'', NodeID = 1,
               ParentID = - 1\<rparr>],
     recordSteps = True\<rparr>"

lemma bt_first_alternative:
  "parseAlternative 0 bt_parser [] [''a'', ''b''] (ID (TreeNode 1 ''S'' [] False)) =
    Some (Inl (''expected 'b', got 'c' at position 2''),
      bt_parser\<lparr>pos := 1, nodeID := 2,
        steps := steps bt_parser @
          [\<lparr>Action = ''add'', Description = ''Match terminal 'a'' @ [CHR 0x27], NodeID = 2,
            ParentID = 1\<rparr>]\<rparr>)"
  by code_simp

lemma bt_second_alternative:
  "parseAlts 0 (bt_parser\<lparr>nodeID := 2\<rparr>) ''S'' (TreeNode 1 ''S'' [] False) [[''a'', ''c'']]
   = Some (Inr (TreeNode 1 ''S'' [TreeNode 3 ''a'' [] True, TreeNode 4 ''c'' [] True] False),
       bt_parser\<lparr>pos := 2, nodeID := 4,
        steps := steps bt_parser @
          [\<lparr>Action = ''add'', Description = ''Match terminal 'a'' @ [CHR 0x27], NodeID = 3,
            ParentID = 1\<rparr>,
           \<lparr>Action = ''add'', Description = ''Match terminal 'c'' @ [CHR 0x27], NodeID = 4,
            ParentID = 1\<rparr>]\<rparr>)"
  by code_simp

theorem backtrack_restores_witness:
  "parseAlternative 0 bt_parser [] [''a'', ''b''] (ID (TreeNode 1 ''S'' [] False)) =
    Some (Inl (''expected 'b', got 'c' at position 2''),
      bt_parser\<lparr>pos := 1, nodeID := 2,
        steps := steps bt_parser @
          [\<lparr>Action = ''add'', Description = ''Match terminal 'a'' @ [CHR 0x27], NodeID = 2,
            ParentID = 1\<rparr>]\<rparr>)
   \<and> parseAlts 0 bt_parser ''S'' (TreeNode 1 ''S'' [] False) [[''a'', ''b''], [''a'', ''c'']]
     = Some (Inr (TreeNode 1 ''S'' [TreeNode 3 ''a'' [] True, TreeNode 4 ''c'' [] True] False),
       bt_parser\<lparr>pos := 2, nodeID := 4,
        steps := steps bt_parser @
          [\<lparr>Action = ''add'', Description = ''Match terminal 'a'' @ [CHR 0x27], NodeID = 3,
            ParentID = 1\<rparr>,
           \<lparr>Action = ''add'', Description = ''Match terminal 'c'' @ [CHR 0x27], NodeID = 4,
            ParentID = 1\<rparr>]\<rparr>)"
  using backtrack_restores [OF bt_first_alternative, of "''S''" "[[''a'', ''c'']]"]
    bt_first_alternative bt_second_alternative
  by simp

section \<open>The steps of Parse\<close>

text \<open>
  Names for three parts of \<^verbatim>\<open>Parse\<close>: the parser after the assignments at its
  start, the result it starts from, and the message for input left over.
\<close>

definition reset_parser :: "Parser \<Rightarrow> string \<Rightarrow> bool \<Rightarrow> Parser" where
  "reset_parser p inp rec =
     p\<lparr>tokens := Tokenize (NewLexer inp), pos := 0, nodeID := 0, steps := [], recordSteps := rec\<rparr>"

definition new_result :: "string \<Rightarrow> ParseResult" where
  "new_result inp =
     \<lparr>Success = True, Tree = None, Steps = [], Error = [], Tokens = Tokenize (NewLexer inp)\<rparr>"

definition trailing_input_error :: "Token \<Rightarrow> string" where
  "trailing_input_error t =
     ''Unexpected token '' @ [CHR 0x27] @ Value t @ [CHR 0x27] @ '' at position ''
       @ show_nat (Position t)"

lemma Parse_unfold:
  "Parse n p inp rec =
     (if StartSymbol (grammar (reset_parser p inp rec)) = [] then
        Some ((new_result inp)\<lparr>Success := False, Error := ''Grammar has no start symbol''\<rparr>,
              reset_parser p inp rec)
      else
        (case parseNonTerminal n (reset_parser p inp rec)
                (StartSymbol (grammar (reset_parser p inp rec))) (- 1) of
           None \<Rightarrow> None
         | Some (Inl err, p1) \<Rightarrow> Some ((new_result inp)\<lparr>Success := False, Error := err\<rparr>, p1)
         | Some (Inr tree, p1) \<Rightarrow>
             if Type (current p1) \<noteq> TOKEN_EOF then
               Some ((new_result inp)\<lparr>Success := False,
                        Error := trailing_input_error (current p1)\<rparr>, p1)
             else Some ((new_result inp)\<lparr>Tree := Some tree, Steps := steps p1\<rparr>, p1)))"
  by (simp only: Parse_def Let_def reset_parser_def new_result_def trailing_input_error_def)

lemma Parse_success:
  assumes "Parse n p inp rec = Some (r, p')" and "Success r"
  shows "\<exists>tree. parseNonTerminal n (reset_parser p inp rec)
                (StartSymbol (grammar (reset_parser p inp rec))) (- 1) = Some (Inr tree, p')
           \<and> Type (current p') = TOKEN_EOF
           \<and> r = (new_result inp)\<lparr>Tree := Some tree, Steps := steps p'\<rparr>"
proof -
  let ?q = "reset_parser p inp rec"
  from assms have ne: "StartSymbol (grammar ?q) \<noteq> []"
    by (auto simp: Parse_unfold)
  with assms(1) obtain x p1 where x: "parseNonTerminal n ?q (StartSymbol (grammar ?q)) (- 1) = Some (x, p1)"
    by (cases "parseNonTerminal n ?q (StartSymbol (grammar ?q)) (- 1)") (auto simp: Parse_unfold)
  show ?thesis
  proof (cases x)
    case (Inl err)
    with assms ne x show ?thesis by (auto simp: Parse_unfold)
  next
    case (Inr tree)
    with assms ne x show ?thesis by (cases "Type (current p1) = TOKEN_EOF") (auto simp: Parse_unfold)
  qed
qed


lemma Parse_frame:
  assumes "Parse n p inp rec = Some (r, p')"
  shows "frame (reset_parser p inp rec) p' \<and> Tokens r = Tokenize (NewLexer inp)"
proof -
  let ?q = "reset_parser p inp rec"
  show ?thesis
  proof (cases "StartSymbol (grammar ?q) = []")
    case True
    with assms show ?thesis by (auto simp: Parse_unfold frame_refl new_result_def)
  next
    case False
    with assms obtain x p1 where x: "parseNonTerminal n ?q (StartSymbol (grammar ?q)) (- 1) = Some (x, p1)"
      by (cases "parseNonTerminal n ?q (StartSymbol (grammar ?q)) (- 1)") (auto simp: Parse_unfold)
    with frame_parse(1) have f: "frame ?q p1" by blast
    have "p' = p1 \<and> Tokens r = Tokenize (NewLexer inp)"
    proof (cases x)
      case (Inl err)
      with assms False x show ?thesis by (auto simp: Parse_unfold new_result_def)
    next
      case (Inr tree)
      with assms False x show ?thesis
        by (cases "Type (current p1) = TOKEN_EOF") (auto simp: Parse_unfold new_result_def)
    qed
    with f show ?thesis by simp
  qed
qed

lemma reset_eq:
  fixes p q :: Parser
  assumes "grammar q = grammar p"
  shows "reset_parser q inp rec = reset_parser p inp rec"
  using assms unfolding reset_parser_def by (cases p, cases q) simp

text \<open>
  C9.  \<^verbatim>\<open>Parse\<close> starts by assigning the tokens, the cursor, the node counter, the
  step log and the recording flag, so nothing of the parser it is called on matters but
  the grammar.  If a call returns a result and a final parser, then any call with the
  same input and flag on a parser with the same grammar returns the same result (success
  flag, tree with its node ids, step log, error and tokens) and the same final parser;
  in particular a second call on the parser the first one left behind does.  A larger
  depth bound changes nothing.
\<close>

theorem Parse_deterministic:
  assumes "Parse n p inp rec = Some (r, p')" and "n \<le> m" and "grammar q = grammar p"
  shows "Parse m q inp rec = Some (r, p') \<and> Parse m p' inp rec = Some (r, p')"
proof -
  from Parse_fuel_mono [OF assms(1,2)] have a: "Parse m p inp rec = Some (r, p')" .
  from Parse_frame [OF assms(1)] have g: "grammar p' = grammar p"
    by (simp add: frame_def reset_parser_def)
  have "Parse m q inp rec = Parse m p inp rec"
    by (simp only: Parse_unfold reset_eq [OF assms(3)])
  moreover have "Parse m p' inp rec = Parse m p inp rec"
    by (simp only: Parse_unfold reset_eq [OF g])
  ultimately show ?thesis using a by simp
qed

theorem Parse_deterministic_witness:
  "Parse 1 (NewParser (ParseGrammar ''F -> number'')) ''2'' True \<noteq> None
   \<and> Parse 3 ((NewParser (ParseGrammar ''F -> number''))\<lparr>pos := 7, nodeID := 9\<rparr>) ''2'' True
       = Parse 1 (NewParser (ParseGrammar ''F -> number'')) ''2'' True"
proof -
  have ne: "Parse 1 (NewParser (ParseGrammar ''F -> number'')) ''2'' True \<noteq> None"
    by code_simp
  then obtain r p' where
    a: "Parse 1 (NewParser (ParseGrammar ''F -> number'')) ''2'' True = Some (r, p')"
    by (cases "Parse 1 (NewParser (ParseGrammar ''F -> number'')) ''2'' True") auto
  have "Parse 3 ((NewParser (ParseGrammar ''F -> number''))\<lparr>pos := 7, nodeID := 9\<rparr>) ''2'' True
      = Some (r, p')"
    using Parse_deterministic [OF a, of 3
        "(NewParser (ParseGrammar ''F -> number''))\<lparr>pos := 7, nodeID := 9\<rparr>"]
    by simp
  with ne a show ?thesis by simp
qed

lemma single_char_token_not_eof: "Type (single_char_token ch p) \<noteq> TOKEN_EOF"
  by (simp add: single_char_token_def)

lemma readNumber_not_eof: "readNumber l = (t, l') \<Longrightarrow> Type t \<noteq> TOKEN_EOF \<and> ltokens l' = ltokens l"
  by (auto simp: readNumber_def Let_def)

lemma readIdentifier_not_eof:
  "readIdentifier l = (t, l') \<Longrightarrow> Type t \<noteq> TOKEN_EOF \<and> ltokens l' = ltokens l"
  by (auto simp: readIdentifier_def Let_def split: if_splits)

lemma Tokenize_loop_no_eof:
  "TOKEN_EOF \<notin> Type ` set (ltokens l) \<Longrightarrow> TOKEN_EOF \<notin> Type ` set (ltokens (Tokenize_loop l))"
proof (induction l rule: Tokenize_loop.induct)
  case (1 l)
  show ?case
  proof (cases "lpos l < length (input l)")
    case False
    with "1.prems" show ?thesis by (subst Tokenize_loop.simps) simp
  next
    case True
    let ?ch = "input l ! lpos l"
    consider (sp) "isSpace ?ch" | (dg) "\<not> isSpace ?ch" "isDigit ?ch"
      | (lt) "\<not> isSpace ?ch" "\<not> isDigit ?ch" "isLetter ?ch"
      | (ot) "\<not> isSpace ?ch" "\<not> isDigit ?ch" "\<not> isLetter ?ch" by blast
    then show ?thesis
    proof cases
      case sp
      from "1.IH"(1) [OF True refl sp] "1.prems" True sp show ?thesis
        by (subst Tokenize_loop.simps) simp
    next
      case dg
      obtain t l' where r: "readNumber l = (t, l')" by (cases "readNumber l")
      from readNumber_not_eof [OF r] "1.prems"
      have "TOKEN_EOF \<notin> Type ` set (ltokens (l'\<lparr>ltokens := ltokens l' @ [t]\<rparr>))" by auto
      from "1.IH"(2) [OF True refl dg r [symmetric] refl this] True dg r show ?thesis
        by (subst Tokenize_loop.simps) simp
    next
      case lt
      obtain t l' where r: "readIdentifier l = (t, l')" by (cases "readIdentifier l")
      from readIdentifier_not_eof [OF r] "1.prems"
      have "TOKEN_EOF \<notin> Type ` set (ltokens (l'\<lparr>ltokens := ltokens l' @ [t]\<rparr>))" by auto
      from "1.IH"(3) [OF True refl lt r [symmetric] refl this] True lt r show ?thesis
        by (subst Tokenize_loop.simps) simp
    next
      case ot
      from single_char_token_not_eof [of ?ch "lpos l"] "1.prems"
      have "TOKEN_EOF \<notin> Type ` set (ltokens (l\<lparr>ltokens := ltokens l @ [single_char_token ?ch (lpos l)],
                                lpos := lpos l + 1\<rparr>))" by (auto dest: sym)
      from "1.IH"(4) [OF True refl ot this] True ot show ?thesis
        by (subst Tokenize_loop.simps) simp
    qed
  qed
qed

lemma Tokenize_shape:
  "\<exists>ts e. Tokenize l = ts @ [\<lparr>Type = TOKEN_EOF, Value = [], Position = e\<rparr>]
     \<and> TOKEN_EOF \<notin> Type ` set ts"
proof -
  have "TOKEN_EOF \<notin> Type ` set (ltokens (Tokenize_loop (l\<lparr>ltokens := [], lpos := 0\<rparr>)))"
    by (rule Tokenize_loop_no_eof) simp
  then show ?thesis by (simp add: Tokenize_def Let_def)
qed


lemma reset_parser_simps:
  "grammar (reset_parser p inp rec) = grammar p"
  "tokens (reset_parser p inp rec) = Tokenize (NewLexer inp)"
  "pos (reset_parser p inp rec) = 0"
  "nodeID (reset_parser p inp rec) = 0"
  "steps (reset_parser p inp rec) = []"
  "recordSteps (reset_parser p inp rec) = rec"
  by (simp_all add: reset_parser_def)

text \<open>
  C3.  Whenever \<^verbatim>\<open>Parse\<close> returns success, the token under the cursor is the
  end-of-input token and every token before it has been consumed: the cursor is at the
  last index of the token sequence or beyond.  And whenever the expansion of the start
  symbol succeeds with a token under the cursor that is not the end-of-input token,
  \<^verbatim>\<open>Parse\<close> returns failure, with no tree, and its error names the text of that token
  and its position.
\<close>

theorem success_consumes_all:
  "(Parse n p inp rec = Some (r, p') \<and> Success r \<longrightarrow>
      Type (current p') = TOKEN_EOF \<and> tokens p' = Tokens r \<and> length (Tokens r) - 1 \<le> pos p')
   \<and> (StartSymbol (grammar p) \<noteq> []
        \<and> parseNonTerminal n (reset_parser p inp rec) (StartSymbol (grammar p)) (- 1)
            = Some (Inr tree, p1)
        \<and> Type (current p1) \<noteq> TOKEN_EOF \<longrightarrow>
      (\<exists>r1. Parse n p inp rec = Some (r1, p1) \<and> \<not> Success r1 \<and> Tree r1 = None
         \<and> Error r1 = ''Unexpected token '' @ [CHR 0x27] @ Value (current p1) @ [CHR 0x27]
                       @ '' at position '' @ show_nat (Position (current p1))))"
proof (intro conjI impI)
  assume a: "Parse n p inp rec = Some (r, p') \<and> Success r"
  from Parse_success [of n p inp rec r p'] a
  show eof: "Type (current p') = TOKEN_EOF" by blast
  from Parse_frame [of n p inp rec r p'] a
  have t: "tokens p' = Tokenize (NewLexer inp)" "Tokens r = Tokenize (NewLexer inp)"
    by (simp_all add: frame_def reset_parser_simps)
  then show "tokens p' = Tokens r" by simp
  from Tokenize_shape [of "NewLexer inp"] obtain ts e
    where sh: "Tokenize (NewLexer inp) = ts @ [\<lparr>Type = TOKEN_EOF, Value = [], Position = e\<rparr>]"
      and ne: "TOKEN_EOF \<notin> Type ` set ts" by blast
  have "\<not> pos p' < length ts"
  proof
    assume l: "pos p' < length ts"
    with t sh have "current p' = ts ! pos p'" by (simp add: current_def nth_append)
    with l have "current p' \<in> set ts" by simp
    with ne eof show False by force
  qed
  with t sh show "length (Tokens r) - 1 \<le> pos p'" by simp
next
  assume b: "StartSymbol (grammar p) \<noteq> []
        \<and> parseNonTerminal n (reset_parser p inp rec) (StartSymbol (grammar p)) (- 1)
            = Some (Inr tree, p1)
        \<and> Type (current p1) \<noteq> TOKEN_EOF"
  then have "Parse n p inp rec =
      Some ((new_result inp)\<lparr>Success := False, Error := trailing_input_error (current p1)\<rparr>, p1)"
    by (simp add: Parse_unfold reset_parser_simps)
  then show "\<exists>r1. Parse n p inp rec = Some (r1, p1) \<and> \<not> Success r1 \<and> Tree r1 = None
         \<and> Error r1 = ''Unexpected token '' @ [CHR 0x27] @ Value (current p1) @ [CHR 0x27]
                       @ '' at position '' @ show_nat (Position (current p1))"
    by (simp add: new_result_def trailing_input_error_def)
qed

text \<open>
  The witness: the input \<open>2\<close> on the grammar \<open>F -> number\<close> succeeds, and the input
  \<open>3 3\<close> on the default grammar expands the start symbol and leaves the second \<open>3\<close>.
\<close>

definition c3_parser :: Parser where
  "c3_parser = NewParser (ParseGrammar GetDefaultArithmeticGrammar)"

theorem success_consumes_all_witness:
  "Parse 1 (NewParser (ParseGrammar ''F -> number'')) ''2'' True \<noteq> None
   \<and> Success (fst (the (Parse 1 (NewParser (ParseGrammar ''F -> number'')) ''2'' True)))
   \<and> length (Tokens (fst (the (Parse 1 (NewParser (ParseGrammar ''F -> number'')) ''2'' True)))) - 1
       \<le> pos (snd (the (Parse 1 (NewParser (ParseGrammar ''F -> number'')) ''2'' True)))
   \<and> map_option (Error \<circ> fst) (Parse 4 c3_parser ''3 3'' False)
       = Some ''Unexpected token '3' at position 2''"
proof -
  let ?P = "Parse 1 (NewParser (ParseGrammar ''F -> number'')) ''2'' True"
  let ?X = "parseNonTerminal 4 (reset_parser c3_parser ''3 3'' False)
              (StartSymbol (grammar c3_parser)) (- 1)"
  have f1: "?P \<noteq> None" by code_simp
  have f2: "Success (fst (the ?P))" by code_simp
  from f1 have f3: "?P = Some (fst (the ?P), snd (the ?P))" by auto
  have g1: "?X \<noteq> None" by code_simp
  have g2: "\<not> isl (fst (the ?X))" by code_simp
  have g3: "Type (current (snd (the ?X))) \<noteq> TOKEN_EOF" by code_simp
  have g4: "Value (current (snd (the ?X))) = ''3''" by code_simp
  have g5: "Position (current (snd (the ?X))) = 2" by code_simp
  have g6: "StartSymbol (grammar c3_parser) \<noteq> []" by code_simp
  have g7: "show_nat 2 = ''2''" by code_simp
  from g1 g2 have g8: "?X = Some (Inr (projr (fst (the ?X))), snd (the ?X))"
    by (cases ?X) (auto simp: isl_def)
  from success_consumes_all [of 1 "NewParser (ParseGrammar ''F -> number'')" "''2''" True
      "fst (the ?P)" "snd (the ?P)"] f2 f3
  have a: "length (Tokens (fst (the ?P))) - 1 \<le> pos (snd (the ?P))" by blast
  from success_consumes_all [of 4 c3_parser "''3 3''" False _ _ "projr (fst (the ?X))"
      "snd (the ?X)"] g3 g6 g8
  obtain r1 where "Parse 4 c3_parser ''3 3'' False = Some (r1, snd (the ?X))"
    "Error r1 = ''Unexpected token '' @ [CHR 0x27] @ Value (current (snd (the ?X))) @ [CHR 0x27]
                       @ '' at position '' @ show_nat (Position (current (snd (the ?X))))"
    by blast
  with g4 g5 g7 have b: "map_option (Error \<circ> fst) (Parse 4 c3_parser ''3 3'' False)
       = Some ''Unexpected token '3' at position 2''" by simp
  from f1 f2 a b show ?thesis by blast
qed

section \<open>The cursor stays on a token\<close>

text \<open>
  \<open>cursor_in_range p\<close>: the token sequence ends with an end-of-input token of empty
  text, no symbol of a production body is the empty string, and the cursor is an index
  of the token sequence.
\<close>

definition cursor_in_range :: "Parser \<Rightarrow> bool" where
  "cursor_in_range p =
     (tokens p \<noteq> [] \<and> Type (last (tokens p)) = TOKEN_EOF \<and> Value (last (tokens p)) = []
      \<and> [] \<notin> set (body_symbols (Productions (grammar p)))
      \<and> pos p < length (tokens p))"

lemma terminal_matches_eof:
  "symbol \<noteq> [] \<Longrightarrow> Type t = TOKEN_EOF \<Longrightarrow> Value t = [] \<Longrightarrow> \<not> terminal_matches symbol t"
  by (auto simp: terminal_matches_def)

lemma matchTerminal_eof:
  assumes "symbol \<noteq> []" "Type (current p) = TOKEN_EOF" "Value (current p) = []"
  shows "\<exists>err. matchTerminal p symbol parentID = (Inl err, p)"
  using terminal_matches_eof [OF assms] by (simp add: matchTerminal_def Let_def)

lemma cursor_createNode:
  "createNode p label t par = (node, p1) \<Longrightarrow> cursor_in_range p \<Longrightarrow> cursor_in_range p1"
  by (auto simp: createNode_def cursor_in_range_def Let_def split: if_splits)

lemma cursor_matchTerminal:
  assumes "matchTerminal p symbol par = (r, p1)" "cursor_in_range p" "symbol \<noteq> []"
  shows "cursor_in_range p1"
proof (cases "terminal_matches symbol (current p)")
  case False
  with assms(1) have "p1 = p" by (simp add: matchTerminal_def Let_def)
  with assms(2) show ?thesis by simp
next
  case True
  from assms(2) have in_range: "pos p < length (tokens p)" and ne: "tokens p \<noteq> []"
    and l: "Type (last (tokens p)) = TOKEN_EOF" "Value (last (tokens p)) = []"
    by (simp_all add: cursor_in_range_def)
  have "pos p \<noteq> length (tokens p) - 1"
  proof
    assume "pos p = length (tokens p) - 1"
    with in_range ne have "current p = last (tokens p)"
      by (cases "tokens p") (simp_all add: current_def last_conv_nth)
    with terminal_matches_eof [OF assms(3), of "current p"] l True show False by simp
  qed
  with in_range have s: "pos p + 1 < length (tokens p)" by simp
  obtain node q where c: "createNode p (Value (current p)) True par = (node, q)"
    by (cases "createNode p (Value (current p)) True par")
  from c have q: "tokens q = tokens p" "pos q = pos p" "grammar q = grammar p"
    by (auto simp: createNode_def Let_def split: if_splits)
  from True c assms(1) have "p1 = advance q" by (simp add: matchTerminal_def Let_def)
  with q s assms(2) show ?thesis by (simp add: advance_def cursor_in_range_def)
qed

lemma cursor_restore:
  assumes "frame p p1" "cursor_in_range p"
  shows "cursor_in_range (p1\<lparr>pos := pos p, steps := take (length (steps p)) (steps p1)\<rparr>)"
  using assms(2) unfolding restore_eq [OF assms(1)] by (simp add: cursor_in_range_def)

lemma body_symbols_mem:
  "map_of ps k = Some pr \<Longrightarrow> set (concat (Body pr)) \<subseteq> set (body_symbols ps)"
  by (induction ps) (auto simp: body_symbols_def split: if_splits)


lemma cursor_parse:
  "cursor_in_range p \<and> parseNonTerminal n p symbol parentID = Some (r, p') \<longrightarrow> cursor_in_range p'"
  "cursor_in_range p \<and> [] \<notin> set (concat alts) \<and> parseAlts n p symbol node alts = Some (r, p')
     \<longrightarrow> cursor_in_range p'"
  "cursor_in_range p \<and> [] \<notin> set symbols
     \<and> parseAlternative n p children symbols parentID = Some (r2, p') \<longrightarrow> cursor_in_range p'"
proof (induction n p symbol parentID and n p symbol node alts and n p children symbols parentID
    arbitrary: r p' and r p' and r2 p'
    rule: parseNonTerminal_parseAlts_parseAlternative.induct)
  case (1 p symbol parentID)
  then show ?case by simp
next
  case (2 n p symbol parentID)
  show ?case
  proof
    assume a: "cursor_in_range p \<and> parseNonTerminal (Suc n) p symbol parentID = Some (r, p')"
    show "cursor_in_range p'"
    proof (cases "map_of (Productions (grammar p)) symbol")
      case None
      with a show ?thesis by auto
    next
      case (Some production)
      obtain node p1 where c: "createNode p symbol False parentID = (node, p1)"
        by (cases "createNode p symbol False parentID")
      from a Some c have e: "parseAlts n p1 symbol node (Body production) = Some (r, p')" by simp
      from a c have c1: "cursor_in_range p1" by (blast intro: cursor_createNode)
      from body_symbols_mem [OF Some] a
      have "[] \<notin> set (concat (Body production))" by (auto simp: cursor_in_range_def)
      with "2.IH" [OF Some c [symmetric]] e c1 show ?thesis by blast
    qed
  qed
next
  case (3 n p symbol node)
  then show ?case by auto
next
  case (4 n p symbol node alt alts)
  show ?case
  proof
    assume a: "cursor_in_range p \<and> [] \<notin> set (concat (alt # alts))
        \<and> parseAlts n p symbol node (alt # alts) = Some (r, p')"
    then obtain x p1 where b: "parseAlternative n p [] alt (ID node) = Some (x, p1)"
      by (auto simp: Let_def split: option.splits)
    from a have na: "[] \<notin> set alt" "[] \<notin> set (concat alts)" by simp_all
    from "4.IH"(1) [OF refl refl] b a na have c1: "cursor_in_range p1" by blast
    from frame_parse(3) b have f1: "frame p p1" by blast
    show "cursor_in_range p'"
    proof (cases x)
      case (Inl err)
      with a b have "parseAlts n (p1\<lparr>pos := pos p, steps := take (length (steps p)) (steps p1)\<rparr>)
            symbol node alts = Some (r, p')" by (simp add: Let_def)
      with "4.IH"(2) [OF refl refl b refl Inl] cursor_restore [OF f1] a na
      show ?thesis by blast
    next
      case (Inr ch)
      with a b have "p' = p1" by (simp add: Let_def)
      with c1 show ?thesis by simp
    qed
  qed
next
  case (5 n p children parentID)
  then show ?case by auto
next
  case (6 n p children symbol symbols parentID)
  show ?case
  proof
    assume a: "cursor_in_range p \<and> [] \<notin> set (symbol # symbols)
        \<and> parseAlternative n p children (symbol # symbols) parentID = Some (r2, p')"
    then have ns: "symbol \<noteq> []" "[] \<notin> set symbols" by auto
    from a have cp: "cursor_in_range p"
      and pa: "parseAlternative n p children (symbol # symbols) parentID = Some (r2, p')"
      by simp_all
    consider (e) "symbol = eps \<or> symbol = ''epsilon''"
      | (t) "\<not> (symbol = eps \<or> symbol = ''epsilon'')" "isTerminal p symbol"
      | (n) "\<not> (symbol = eps \<or> symbol = ''epsilon'')" "\<not> isTerminal p symbol"
      by blast
    then show "cursor_in_range p'"
    proof cases
      case e
      obtain node p1 where c: "createNode p eps True parentID = (node, p1)"
        by (cases "createNode p eps True parentID")
      from pa e c have "parseAlternative n p1 (children @ [node]) symbols parentID = Some (r2, p')"
        by simp
      with "6.IH"(1) [OF e c [symmetric]] cursor_createNode [OF c cp] ns show ?thesis by blast
    next
      case t
      obtain x p1 where c: "matchTerminal p symbol parentID = (x, p1)"
        by (cases "matchTerminal p symbol parentID")
      from cursor_matchTerminal [OF c cp ns(1)] have c1: "cursor_in_range p1" .
      show ?thesis
      proof (cases x)
        case (Inl err)
        with pa t c have "p' = p1" by simp
        with c1 show ?thesis by simp
      next
        case (Inr b)
        with pa t c have "parseAlternative n p1 (children @ [b]) symbols parentID = Some (r2, p')"
          by simp
        with "6.IH"(2) [OF t c [symmetric] Inr] c1 ns show ?thesis by blast
      qed
    next
      case n
      from pa n obtain x p1 where c: "parseNonTerminal n p symbol parentID = Some (x, p1)"
        by (auto split: option.splits)
      from "6.IH"(3) [OF n] c cp have c1: "cursor_in_range p1" by blast
      show ?thesis
      proof (cases x)
        case (Inl err)
        with pa n c have "p' = p1" by simp
        with c1 show ?thesis by simp
      next
        case (Inr b)
        with pa n c have "parseAlternative n p1 (children @ [b]) symbols parentID = Some (r2, p')"
          by simp
        with "6.IH"(4) [OF n c refl Inr] c1 ns show ?thesis by blast
      qed
    qed
  qed
qed

lemma parseSymbols_nonempty: "[] \<notin> set (parseSymbols body)"
  by (simp add: parseSymbols_def Let_def)

lemma parse_alternatives_nonempty: "[] \<notin> set (concat (parse_alternatives alts))"
  by (induction alts) (auto simp: Let_def parseSymbols_nonempty)

lemma body_symbols_Nil: "body_symbols [] = []"
  by (simp add: body_symbols_def)

lemma body_symbols_Cons: "body_symbols ((k, pr) # ps) = concat (Body pr) @ body_symbols ps"
  by (simp add: body_symbols_def)

lemma body_symbols_add_bodies:
  "set (body_symbols (add_bodies head bodies ps)) = set (body_symbols ps) \<union> set (concat bodies)"
proof (induction ps)
  case Nil
  show ?case by (simp add: body_symbols_Nil body_symbols_Cons)
next
  case (Cons a ps)
  obtain k pr where a: "a = (k, pr)" by (cases a)
  show ?case
  proof (cases "k = head")
    case True
    then show ?thesis unfolding a by (auto simp: body_symbols_Cons)
  next
    case False
    with Cons.IH show ?thesis unfolding a by (auto simp: body_symbols_Cons)
  qed
qed

lemma ParseGrammar_line_nonempty:
  assumes "[] \<notin> set (body_symbols (Productions (fst st)))"
  shows "[] \<notin> set (body_symbols (Productions (fst (ParseGrammar_line line st))))"
proof -
  obtain g b where st: "st = (g, b)" by (cases st)
  show ?thesis
    using assms parse_alternatives_nonempty
    unfolding st ParseGrammar_line_def Let_def
    by (auto simp: body_symbols_add_bodies simp del: parse_alternatives.simps)
qed

lemma foldl_lines_nonempty:
  "[] \<notin> set (body_symbols (Productions (fst st))) \<Longrightarrow>
   [] \<notin> set (body_symbols (Productions (fst (foldl (\<lambda>st line. ParseGrammar_line line st) st lines))))"
  by (induction lines arbitrary: st) (simp_all add: ParseGrammar_line_nonempty)

lemma ParseGrammar_nonempty: "[] \<notin> set (body_symbols (Productions (ParseGrammar text)))"
proof -
  let ?g0 = "\<lparr>Productions = [], StartSymbol = [], Terminals = {}, NonTerminals = {}\<rparr>"
  have "[] \<notin> set (body_symbols (Productions (fst (?g0, True))))"
    by (simp add: body_symbols_def)
  from foldl_lines_nonempty [OF this, of "Split text CHR 0x0A"]
  show ?thesis by (simp add: ParseGrammar_def Let_def split_beta)
qed


lemma cursor_reset:
  assumes "[] \<notin> set (body_symbols (Productions (grammar p)))"
  shows "cursor_in_range (reset_parser p inp rec)"
proof -
  from Tokenize_shape [of "NewLexer inp"] obtain ts e
    where "Tokenize (NewLexer inp) = ts @ [\<lparr>Type = TOKEN_EOF, Value = [], Position = e\<rparr>]"
    by blast
  with assms show ?thesis by (simp add: cursor_in_range_def reset_parser_simps)
qed

lemma Parse_state:
  assumes "Parse n p inp rec = Some (r, q)"
  shows "q = reset_parser p inp rec
     \<or> (\<exists>x. parseNonTerminal n (reset_parser p inp rec) (StartSymbol (grammar p)) (- 1)
            = Some (x, q))"
proof (cases "StartSymbol (grammar p) = []")
  case True
  with assms show ?thesis by (auto simp: Parse_unfold reset_parser_simps)
next
  case False
  with assms obtain x p1
    where x: "parseNonTerminal n (reset_parser p inp rec) (StartSymbol (grammar p)) (- 1) = Some (x, p1)"
    by (cases "parseNonTerminal n (reset_parser p inp rec) (StartSymbol (grammar p)) (- 1)")
       (auto simp: Parse_unfold reset_parser_simps)
  have "q = p1"
  proof (cases x)
    case (Inl err)
    with assms False x show ?thesis by (auto simp: Parse_unfold reset_parser_simps)
  next
    case (Inr tree)
    with assms False x show ?thesis
      by (cases "Type (current p1) = TOKEN_EOF") (auto simp: Parse_unfold reset_parser_simps)
  qed
  with x show ?thesis by blast
qed

text \<open>
  C10.  The end-of-input token is never matched: \<^verbatim>\<open>matchTerminal\<close> fails on it for
  every non-empty symbol and leaves the parser as it was.  So, where no body symbol of
  the grammar is empty and the tokens end with the end-of-input token, every call of
  \<^verbatim>\<open>parseNonTerminal\<close>, of its loop over the alternatives and of
  \<^verbatim>\<open>parseAlternative\<close> that starts with the cursor on a token returns with the
  cursor on a token; after \<^verbatim>\<open>Parse\<close> the cursor is an index of the tokens and
  \<^verbatim>\<open>current\<close> is the token at that index, never its fallback.  Every grammar that
  \<^verbatim>\<open>ParseGrammar\<close> builds has non-empty body symbols only.
\<close>

theorem eof_never_consumed:
  "(symbol \<noteq> [] \<and> Type (current p) = TOKEN_EOF \<and> Value (current p) = []
      \<longrightarrow> (\<exists>err. matchTerminal p symbol parentID = (Inl err, p)))
   \<and> (cursor_in_range p \<and> parseNonTerminal n p symbol parentID = Some (x, p')
      \<longrightarrow> cursor_in_range p')
   \<and> (cursor_in_range p \<and> [] \<notin> set (concat alts)
        \<and> parseAlts n p symbol node alts = Some (x, p')
      \<longrightarrow> cursor_in_range p')
   \<and> (cursor_in_range p \<and> [] \<notin> set symbols
        \<and> parseAlternative n p children symbols parentID = Some (y, p')
      \<longrightarrow> cursor_in_range p')
   \<and> ([] \<notin> set (body_symbols (Productions (grammar p0))) \<and> Parse n p0 inp rec = Some (r, q)
      \<longrightarrow> pos q < length (Tokens r) \<and> current q = Tokens r ! pos q
          \<and> Type (last (Tokens r)) = TOKEN_EOF \<and> Value (last (Tokens r)) = [])
   \<and> [] \<notin> set (body_symbols (Productions (ParseGrammar text)))"
proof (intro conjI impI)
  assume "symbol \<noteq> [] \<and> Type (current p) = TOKEN_EOF \<and> Value (current p) = []"
  then show "\<exists>err. matchTerminal p symbol parentID = (Inl err, p)"
    by (simp add: matchTerminal_eof)
next
  assume "cursor_in_range p \<and> parseNonTerminal n p symbol parentID = Some (x, p')"
  with cursor_parse(1) show "cursor_in_range p'" by blast
next
  assume "cursor_in_range p \<and> [] \<notin> set (concat alts)
        \<and> parseAlts n p symbol node alts = Some (x, p')"
  with cursor_parse(2) show "cursor_in_range p'" by blast
next
  assume "cursor_in_range p \<and> [] \<notin> set symbols
        \<and> parseAlternative n p children symbols parentID = Some (y, p')"
  with cursor_parse(3) show "cursor_in_range p'" by blast
next
  show "[] \<notin> set (body_symbols (Productions (ParseGrammar text)))"
    by (rule ParseGrammar_nonempty)
next
  assume a: "[] \<notin> set (body_symbols (Productions (grammar p0))) \<and> Parse n p0 inp rec = Some (r, q)"
  then have c0: "cursor_in_range (reset_parser p0 inp rec)" by (simp add: cursor_reset)
  from a Parse_state [of n p0 inp rec r q] cursor_parse(1) c0 have cq: "cursor_in_range q"
    by blast
  from a Parse_frame [of n p0 inp rec r q]
  have t: "tokens q = Tokens r" by (simp add: frame_def reset_parser_simps)
  from cq t show "pos q < length (Tokens r)" "Type (last (Tokens r)) = TOKEN_EOF"
    "Value (last (Tokens r)) = []"
    by (simp_all add: cursor_in_range_def)
  with t show "current q = Tokens r ! pos q" by (simp add: current_def)
qed

text \<open>
  The witness: the grammar \<open>F -> number\<close> and the input \<open>2\<close>, from the state
  \<^verbatim>\<open>Parse\<close> starts in, and the same state with the cursor on the end-of-input token.
\<close>

definition c10_parser :: Parser where
  "c10_parser = reset_parser (NewParser (ParseGrammar ''F -> number'')) ''2'' True"

theorem eof_never_consumed_witness:
  "isl (fst (matchTerminal (c10_parser\<lparr>pos := 1\<rparr>) ''number'' 1))
   \<and> cursor_in_range c10_parser
   \<and> parseNonTerminal 1 c10_parser ''F'' (- 1) \<noteq> None
   \<and> cursor_in_range (snd (the (parseNonTerminal 1 c10_parser ''F'' (- 1))))
   \<and> cursor_in_range (snd (the (parseAlts 0 c10_parser ''F'' (TreeNode 1 ''F'' [] False) [[''number'']])))
   \<and> cursor_in_range (snd (the (parseAlternative 0 c10_parser [] [''number''] 1)))
   \<and> pos (snd (the (Parse 1 (NewParser (ParseGrammar ''F -> number'')) ''2'' True))) = 1
   \<and> length (Tokens (fst (the (Parse 1 (NewParser (ParseGrammar ''F -> number'')) ''2'' True)))) = 2"
proof -
  let ?N = "parseNonTerminal 1 c10_parser ''F'' (- 1)"
  let ?A = "parseAlts 0 c10_parser ''F'' (TreeNode 1 ''F'' [] False) [[''number'']]"
  let ?R = "parseAlternative 0 c10_parser [] [''number''] 1"
  let ?P = "Parse 1 (NewParser (ParseGrammar ''F -> number'')) ''2'' True"
  have e: "Type (current (c10_parser\<lparr>pos := 1\<rparr>)) = TOKEN_EOF"
    "Value (current (c10_parser\<lparr>pos := 1\<rparr>)) = []" by code_simp+
  have c: "cursor_in_range c10_parser" by code_simp
  have n: "?N \<noteq> None" "?A \<noteq> None" "?R \<noteq> None" "?P \<noteq> None" by code_simp+
  have v: "pos (snd (the ?P)) = 1" "length (Tokens (fst (the ?P))) = 2" by code_simp+
  have g: "[] \<notin> set (body_symbols (Productions (grammar (NewParser (ParseGrammar ''F -> number'')))))"
    by code_simp
  from n have s: "?N = Some (fst (the ?N), snd (the ?N))" "?A = Some (fst (the ?A), snd (the ?A))"
    "?R = Some (fst (the ?R), snd (the ?R))" "?P = Some (fst (the ?P), snd (the ?P))" by auto
  from eof_never_consumed [where symbol = "''number''" and p = "c10_parser\<lparr>pos := 1\<rparr>"
      and parentID = 1, THEN conjunct1] e
  have "\<exists>err. matchTerminal (c10_parser\<lparr>pos := 1\<rparr>) ''number'' 1
      = (Inl err, c10_parser\<lparr>pos := 1\<rparr>)" by simp
  then have 1: "isl (fst (matchTerminal (c10_parser\<lparr>pos := 1\<rparr>) ''number'' 1))" by auto
  from eof_never_consumed [where p = c10_parser and n = 1 and symbol = "''F''" and parentID = "- 1"
      and x = "fst (the ?N)" and p' = "snd (the ?N)"] c s(1)
  have 2: "cursor_in_range (snd (the ?N))" by blast
  from eof_never_consumed [where p = c10_parser and n = 0 and symbol = "''F''"
      and node = "TreeNode 1 ''F'' [] False" and alts = "[[''number'']]"
      and x = "fst (the ?A)" and p' = "snd (the ?A)"] c s(2)
  have 3: "cursor_in_range (snd (the ?A))" by simp
  from eof_never_consumed [where p = c10_parser and n = 0 and children = "[]"
      and symbols = "[''number'']" and parentID = 1
      and y = "fst (the ?R)" and p' = "snd (the ?R)"] c s(3)
  have 4: "cursor_in_range (snd (the ?R))" by simp
  from eof_never_consumed [where ?p0.0 = "NewParser (ParseGrammar ''F -> number'')" and n = 1
      and inp = "''2''" and rec = True and r = "fst (the ?P)" and q = "snd (the ?P)"] g s(4)
  have 5: "pos (snd (the ?P)) < length (Tokens (fst (the ?P)))" by blast
  from 1 c n(1) 2 3 4 v show ?thesis by blast
qed

section \<open>Symbols of a production body\<close>















end
